theory Spec2Isabelle
  imports Complex_Main "HOL-Library.AList" "HOL-Library.Sublist" "HOL-Library.Multiset"
begin

section \<open>JavaScript strings\<close>

text \<open>
  A JavaScript string is a sequence of UTF-16 code units; the sources match Cyrillic
  letters, so a string is modelled as the list of its code units (integers from 0 to 65535), not
  as a list of 8-bit characters. \<open>asc\<close> embeds an ASCII literal.
\<close>

type_synonym jstr = "int list"

definition asc :: "string \<Rightarrow> jstr" where
  "asc s = map (of_char :: char \<Rightarrow> int) s"

text \<open>The character classes of the regular expressions: \<open>\d\<close>, \<open>\s\<close> and \<open>\w\<close>.\<close>

definition isDigit :: "int \<Rightarrow> bool" where
  "isDigit c = (48 \<le> c \<and> c \<le> 57)"

definition isSpace :: "int \<Rightarrow> bool" where
  "isSpace c = (c = 9 \<or> c = 10 \<or> c = 11 \<or> c = 12 \<or> c = 13 \<or> c = 32 \<or> c = 160 \<or>
     c = 5760 \<or> (8192 \<le> c \<and> c \<le> 8202) \<or> c = 8232 \<or> c = 8233 \<or> c = 8239 \<or>
     c = 8287 \<or> c = 12288 \<or> c = 65279)"

definition isWordChar :: "int \<Rightarrow> bool" where
  "isWordChar c = (isDigit c \<or> (65 \<le> c \<and> c \<le> 90) \<or> (97 \<le> c \<and> c \<le> 122) \<or> c = 95)"

text \<open>
  \<open>toLowerCase\<close> and \<open>toUpperCase\<close> on a code unit. The platform's case mapping is
  modelled on the two alphabets the sources use (Basic Latin, and the Cyrillic block
  U+0400 to U+045F); every other code unit is left as it is.
\<close>

definition toLowerCU :: "int \<Rightarrow> int" where
  "toLowerCU c = (if 65 \<le> c \<and> c \<le> 90 then c + 32
     else if 1040 \<le> c \<and> c \<le> 1071 then c + 32
     else if 1024 \<le> c \<and> c \<le> 1039 then c + 80
     else c)"

definition toUpperCU :: "int \<Rightarrow> int" where
  "toUpperCU c = (if 97 \<le> c \<and> c \<le> 122 then c - 32
     else if 1072 \<le> c \<and> c \<le> 1103 then c - 32
     else if 1104 \<le> c \<and> c \<le> 1119 then c - 80
     else c)"

definition toLowerCase :: "jstr \<Rightarrow> jstr" where
  "toLowerCase s = map toLowerCU s"

text \<open>\<open>String.prototype.trim\<close>: white space is dropped at both ends.\<close>

definition trim :: "jstr \<Rightarrow> jstr" where
  "trim s = rev (dropWhile isSpace (rev (dropWhile isSpace s)))"

text \<open>\<open>s.replace(/\s+/g, " ")\<close>: every maximal run of white space becomes one space.\<close>

function collapseSpaces :: "jstr \<Rightarrow> jstr" where
  "collapseSpaces [] = []"
| "collapseSpaces (c # cs) =
     (if isSpace c then 32 # collapseSpaces (dropWhile isSpace cs)
      else c # collapseSpaces cs)"
  by pat_completeness auto
termination
  by (relation "measure length") (auto simp: length_dropWhile_le less_Suc_eq_le)

text \<open>\<open>s.includes(sub)\<close> and \<open>s.startsWith(sub)\<close>.\<close>

fun startsWith :: "jstr \<Rightarrow> jstr \<Rightarrow> bool" where
  "startsWith s [] = True"
| "startsWith [] (d # ds) = False"
| "startsWith (c # cs) (d # ds) = (c = d \<and> startsWith cs ds)"

fun includesStr :: "jstr \<Rightarrow> jstr \<Rightarrow> bool" where
  "includesStr [] sub = (sub = [])"
| "includesStr (c # cs) sub = (startsWith (c # cs) sub \<or> includesStr cs sub)"

text \<open>\<open>s.slice(0, n)\<close> is \<open>take n s\<close>; \<open>s.replace(/\/+$/, "")\<close> drops the trailing slashes.\<close>

definition stripTrailingSlashes :: "jstr \<Rightarrow> jstr" where
  "stripTrailingSlashes s = rev (dropWhile (\<lambda>c. c = 47) (rev s))"

section \<open>Regular expressions\<close>

text \<open>
  The regular expressions of the sources are kept as data and run by one backtracking
  matcher that follows the ECMAScript semantics: alternatives are tried left to right,
  quantifiers are greedy, an iteration of a quantifier that consumes nothing is rejected,
  and \<open>\b\<close> holds where exactly one of the neighbouring code units is a word character.
  The matcher returns every way to match, in the order backtracking would try them, so
  the head of the list is the match JavaScript reports. No regular expression of the
  sources modelled here has a capture group under a quantifier that repeats, so the
  reset of such groups at each iteration is not modelled.
\<close>

datatype atom = Digit | Space | Lit int

datatype re =
    Cls "atom list"
  | Eps
  | Seq re re
  | Alt re re
  | Star re
  | Opt re
  | Grp nat re
  | WordB

text \<open>
  A matcher state: the code unit before the current position (for \<open>\b\<close>), the input
  that remains, and the capture groups filled so far.
\<close>

type_synonym mstate = "int option \<times> jstr \<times> (nat \<times> jstr) list"

definition remaining :: "mstate \<Rightarrow> jstr" where
  "remaining st = fst (snd st)"

text \<open>Case-insensitive comparison canonicalizes both sides (flag \<open>i\<close> without \<open>u\<close>).\<close>

definition canonicalize :: "int \<Rightarrow> int" where
  "canonicalize c = (let u = toUpperCU c in if 128 \<le> c \<and> u < 128 then c else u)"

fun atomMatches :: "bool \<Rightarrow> int \<Rightarrow> atom \<Rightarrow> bool" where
  "atomMatches ic c Digit = isDigit c"
| "atomMatches ic c Space = isSpace c"
| "atomMatches ic c (Lit d) = (if ic then canonicalize c = canonicalize d else c = d)"

definition progress :: "mstate \<Rightarrow> mstate \<Rightarrow> bool" where
  "progress st st' = (length (remaining st') < length (remaining st))"

primrec iterate :: "nat \<Rightarrow> (mstate \<Rightarrow> mstate list) \<Rightarrow> mstate \<Rightarrow> mstate list" where
  "iterate 0 f st = [st]"
| "iterate (Suc n) f st = concat (map (iterate n f) (filter (progress st) (f st))) @ [st]"

primrec ms :: "re \<Rightarrow> bool \<Rightarrow> mstate \<Rightarrow> mstate list" where
  "ms (Cls as) ic st =
     (case st of
        (p, [], cs) \<Rightarrow> []
      | (p, c # r, cs) \<Rightarrow> if list_ex (atomMatches ic c) as then [(Some c, r, cs)] else [])"
| "ms Eps ic st = [st]"
| "ms (Seq a b) ic st = concat (map (ms b ic) (ms a ic st))"
| "ms (Alt a b) ic st = ms a ic st @ ms b ic st"
| "ms (Star a) ic st = iterate (length (remaining st)) (ms a ic) st"
| "ms (Opt a) ic st = filter (progress st) (ms a ic st) @ [st]"
| "ms (Grp k a) ic st =
     map (\<lambda>st'. (fst st', remaining st',
            AList.update k (take (length (remaining st) - length (remaining st')) (remaining st))
              (snd (snd st'))))
       (ms a ic st)"
| "ms WordB ic st =
     (if (case fst st of None \<Rightarrow> False | Some c \<Rightarrow> isWordChar c)
         \<noteq> (case remaining st of [] \<Rightarrow> False | c # r \<Rightarrow> isWordChar c)
      then [st] else [])"

text \<open>
  \<open>text.match(re)\<close> for a regular expression without the \<open>g\<close> flag: the first start
  position with a match wins; the result is the list of captured groups.
\<close>

fun searchFrom :: "re \<Rightarrow> bool \<Rightarrow> int option \<Rightarrow> jstr \<Rightarrow> (nat \<times> jstr) list option" where
  "searchFrom r ic p [] =
     (case ms r ic (p, [], []) of [] \<Rightarrow> None | st # sts \<Rightarrow> Some (snd (snd st)))"
| "searchFrom r ic p (c # s) =
     (case ms r ic (p, c # s, []) of
        [] \<Rightarrow> searchFrom r ic (Some c) s
      | st # sts \<Rightarrow> Some (snd (snd st)))"

definition jsMatch :: "re \<Rightarrow> bool \<Rightarrow> jstr \<Rightarrow> (nat \<times> jstr) list option" where
  "jsMatch r ic s = searchFrom r ic None s"

text \<open>A capture group that did not take part, or is empty, reads as the empty string.\<close>

definition capture :: "(nat \<times> jstr) list \<Rightarrow> nat \<Rightarrow> jstr" where
  "capture cs k = (case map_of cs k of None \<Rightarrow> [] | Some g \<Rightarrow> g)"

text \<open>Building blocks: a literal string, \<open>r+\<close>, \<open>r{n,}\<close> and a list of alternatives.\<close>

definition lit :: "jstr \<Rightarrow> re" where
  "lit s = foldr (\<lambda>c r. Seq (Cls [Lit c]) r) s Eps"

definition Plus :: "re \<Rightarrow> re" where
  "Plus r = Seq r (Star r)"

primrec atLeastN :: "nat \<Rightarrow> re \<Rightarrow> re" where
  "atLeastN 0 r = Star r"
| "atLeastN (Suc n) r = Seq r (atLeastN n r)"

fun alts :: "re list \<Rightarrow> re" where
  "alts [] = Eps"
| "alts [r] = r"
| "alts (r # rs) = Alt r (alts rs)"

section \<open>The platform\<close>

text \<open>
  What the browser supplies and the sources only call: \<open>new Date(s).getTime()\<close> (with
  \<open>None\<close> for \<open>NaN\<close>), \<open>Date.prototype.toISOString\<close> on a valid time value, and
  \<open>new URL(s)\<close> with \<open>search\<close> and \<open>hash\<close> cleared and then \<open>toString()\<close> (with
  \<open>None\<close> where the constructor throws). Times are milliseconds since the epoch.
\<close>

record platform =
  dateParse :: "jstr \<Rightarrow> int option"
  toISOString :: "int \<Rightarrow> jstr"
  urlWithoutSearchAndHash :: "jstr \<Rightarrow> jstr option"

section \<open>Post records\<close>

text \<open>
  A post as the background script and the popup read it. A string field that is absent
  reads as the empty string (the sources test \<open>value || ""\<close>, so \<open>undefined\<close>, \<open>null\<close>
  and \<open>""\<close> behave alike); a count that is absent is \<open>None\<close>. The source's field
  \<open>text\<close> is \<open>post_text\<close> here.
\<close>

record post =
  post_url :: jstr
  title :: jstr
  content :: jstr
  post_text :: jstr
  posted_at_iso :: jstr
  posted_at :: jstr
  reactions_count :: "int option"
  likes_count :: "int option"
  comments_count :: "int option"
  reposts_count :: "int option"
  views_count :: "int option"

text \<open>\<open>a || b\<close> on strings: the first operand unless it is empty.\<close>

definition orElse :: "jstr \<Rightarrow> jstr \<Rightarrow> jstr" where
  "orElse a b = (if a \<noteq> [] then a else b)"

section \<open>Identity and scoring engine (background script)\<close>

text \<open>\<open>cleanText\<close> of the background script and of the popup: \<open>String(value || "").trim()\<close>.\<close>

definition cleanText_bg :: "jstr \<Rightarrow> jstr" where
  "cleanText_bg v = trim v"

text \<open>
  \<open>toNumber(value, 0)\<close> on a nullable count. Scores are JavaScript numbers; they are
  modelled by exact rationals.
\<close>

definition toNumber :: "int option \<Rightarrow> rat \<Rightarrow> rat" where
  "toNumber v fallback = (case v of None \<Rightarrow> fallback | Some n \<Rightarrow> of_int n)"

definition postDateMs :: "platform \<Rightarrow> post \<Rightarrow> int option" where
  "postDateMs pf p =
     (let raw = cleanText_bg (orElse (posted_at_iso p) (posted_at p))
      in if raw = [] then None else dateParse pf raw)"

definition scorePost :: "post \<Rightarrow> rat" where
  "scorePost p =
     (let reactions = toNumber (if reactions_count p \<noteq> None then reactions_count p else likes_count p) 0;
          comments = toNumber (comments_count p) 0;
          reposts = toNumber (reposts_count p) 0;
          views = toNumber (views_count p) 0
      in reactions + comments * 3 + reposts * 2 + views * (2 / 100))"

text \<open>
  The six patterns of \<open>extractActivityId\<close> have one form, a marker and then
  \<open>(\d{8,})\<close>; they are tried in this order, each over the whole string.
\<close>

definition activityMarkers :: "jstr list" where
  "activityMarkers =
     [asc ''urn:li:activity:'', asc ''activity-'', asc ''ugcPost-'', asc ''urn:li:ugcPost:'',
      asc ''urn:li:share:'', asc ''share-'']"

definition activityPattern :: "jstr \<Rightarrow> re" where
  "activityPattern marker = Seq (lit marker) (Grp 1 (atLeastN 8 (Cls [Digit])))"

definition activityPatterns :: "re list" where
  "activityPatterns = map activityPattern activityMarkers"

fun firstActivityMatch :: "re list \<Rightarrow> jstr \<Rightarrow> jstr" where
  "firstActivityMatch [] s = []"
| "firstActivityMatch (pat # pats) s =
     (case jsMatch pat True s of
        None \<Rightarrow> firstActivityMatch pats s
      | Some cs \<Rightarrow> if capture cs 1 \<noteq> [] then capture cs 1 else firstActivityMatch pats s)"

definition extractActivityId :: "jstr \<Rightarrow> jstr" where
  "extractActivityId raw = firstActivityMatch activityPatterns raw"

definition normalizeUrlForKey :: "platform \<Rightarrow> jstr \<Rightarrow> jstr" where
  "normalizeUrlForKey pf rawUrl =
     (let raw = cleanText_bg rawUrl
      in if raw = [] then []
         else case urlWithoutSearchAndHash pf raw of
                None \<Rightarrow> raw
              | Some u \<Rightarrow> stripTrailingSlashes u)"

definition normalizedDay :: "platform \<Rightarrow> jstr \<Rightarrow> jstr" where
  "normalizedDay pf raw =
     (case dateParse pf (cleanText_bg raw) of
        None \<Rightarrow> []
      | Some t \<Rightarrow> take 10 (toISOString pf t))"

definition normalizedSnippet :: "jstr \<Rightarrow> jstr" where
  "normalizedSnippet raw = take 200 (collapseSpaces (toLowerCase (cleanText_bg raw)))"

definition postIdentityKey :: "platform \<Rightarrow> post \<Rightarrow> jstr" where
  "postIdentityKey pf p =
     (let activityId =
            orElse (extractActivityId (post_url p))
              (orElse (extractActivityId (title p))
                (orElse (extractActivityId (content p)) (extractActivityId (post_text p))))
      in if activityId \<noteq> [] then asc ''activity:'' @ activityId
         else let normalizedUrl = normalizeUrlForKey pf (post_url p)
              in if normalizedUrl \<noteq> [] then asc ''url:'' @ normalizedUrl
                 else let day = normalizedDay pf (orElse (posted_at_iso p) (posted_at p));
                          snippet = normalizedSnippet (orElse (post_text p) (orElse (content p) (title p)))
                      in asc ''txt:'' @ day @ asc ''|'' @ snippet)"

text \<open>
  \<open>dedupePosts\<close> keeps a JavaScript \<open>Map\<close>, which remembers the order in which keys were
  first inserted and keeps a key's position when its value is replaced: an association
  list with \<open>AList.update\<close>. \<open>a > b\<close> on two dates is false when either is \<open>NaN\<close>.
\<close>

definition dateGreater :: "int option \<Rightarrow> int option \<Rightarrow> bool" where
  "dateGreater a b = (case a of None \<Rightarrow> False | Some x \<Rightarrow> (case b of None \<Rightarrow> False | Some y \<Rightarrow> x > y))"

definition shouldReplace :: "platform \<Rightarrow> post \<Rightarrow> post \<Rightarrow> bool" where
  "shouldReplace pf existing candidate =
     (let existingScore = scorePost existing;
          candidateScore = scorePost candidate;
          existingDate = postDateMs pf existing;
          candidateDate = postDateMs pf candidate
      in candidateScore > existingScore \<or>
         (candidateScore = existingScore \<and> dateGreater candidateDate existingDate))"

definition dedupeStep :: "platform \<Rightarrow> (jstr \<times> post) list \<Rightarrow> post \<Rightarrow> (jstr \<times> post) list" where
  "dedupeStep pf byKey p =
     (let key = postIdentityKey pf p
      in if key = [] then byKey
         else case map_of byKey key of
                None \<Rightarrow> AList.update key p byKey
              | Some existing \<Rightarrow>
                  if shouldReplace pf existing p then AList.update key p byKey else byKey)"

definition dedupePosts :: "platform \<Rightarrow> post list \<Rightarrow> post list" where
  "dedupePosts pf posts = map snd (foldl (dedupeStep pf) [] posts)"


section \<open>Example inputs\<close>

text \<open>
  A small platform for the examples: it knows two dates, and takes the part of an
  \<open>https\<close> URL before the first \<open>?\<close> or \<open>#\<close>.
\<close>

definition exampleDates :: "(jstr \<times> int) list" where
  "exampleDates =
     [(asc ''2024-05-01T00:00:00.000Z'', 1714521600000),
      (asc ''2024-05-02T12:00:00.000Z'', 1714651200000)]"

definition examplePlatform :: platform where
  "examplePlatform =
     \<lparr>dateParse = map_of exampleDates,
      toISOString =
        (\<lambda>t. case map_of (map (\<lambda>(s, t). (t, s)) exampleDates) t of None \<Rightarrow> [] | Some s \<Rightarrow> s),
      urlWithoutSearchAndHash =
        (\<lambda>s. if startsWith s (asc ''https://'')
             then Some (takeWhile (\<lambda>c. c \<noteq> 63 \<and> c \<noteq> 35) s) else None)\<rparr>"

definition emptyPost :: post where
  "emptyPost = \<lparr>post_url = [], title = [], content = [], post_text = [], posted_at_iso = [],
     posted_at = [], reactions_count = None, likes_count = None, comments_count = None,
     reposts_count = None, views_count = None\<rparr>"

text \<open>
  Two captures of one post (the second pass found its reactions) around another post.
\<close>

definition postA1 :: post where
  "postA1 = emptyPost\<lparr>post_url := asc ''activity-12345678''\<rparr>"

definition postA2 :: post where
  "postA2 = postA1\<lparr>reactions_count := Some 5\<rparr>"

definition postB :: post where
  "postB = emptyPost\<lparr>post_url := asc ''activity-87654321''\<rparr>"

section \<open>Number and time normalizer (content script)\<close>

text \<open>\<open>cleanText\<close> of the content script: \<open>String(value || "").replace(/\s+/g, " ").trim()\<close>.\<close>

definition cleanText :: "jstr \<Rightarrow> jstr" where
  "cleanText v = trim (collapseSpaces v)"

text \<open>
  \<open>/(\d[\d\s.,]*)(?:\s*([k\<dots>m\<dots>]))?/i\<close>, the suffix class holding Latin k and m and
  Cyrillic ka (U+043A) and em (U+043C).
\<close>

definition numberTokenRe :: re where
  "numberTokenRe =
     Seq (Grp 1 (Seq (Cls [Digit]) (Star (Cls [Digit, Space, Lit 46, Lit 44]))))
         (Opt (Seq (Star (Cls [Space])) (Grp 2 (Cls [Lit 107, Lit 1082, Lit 109, Lit 1084]))))"

text \<open>\<open>indexOf\<close> and \<open>lastIndexOf\<close> of one code unit, \<open>-1\<close> when it does not occur.\<close>

fun indexOf :: "jstr \<Rightarrow> int \<Rightarrow> int" where
  "indexOf [] c = -1"
| "indexOf (d # ds) c = (if d = c then 0 else (let i = indexOf ds c in if i < 0 then -1 else i + 1))"

definition lastIndexOf :: "jstr \<Rightarrow> int \<Rightarrow> int" where
  "lastIndexOf s c = (let i = indexOf (rev s) c in if i < 0 then -1 else int (length s) - 1 - i)"

text \<open>\<open>s.replace(c, d)\<close> with a string pattern replaces the first occurrence only.\<close>

fun replaceFirst :: "jstr \<Rightarrow> int \<Rightarrow> int \<Rightarrow> jstr" where
  "replaceFirst [] c d = []"
| "replaceFirst (x # xs) c d = (if x = c then d # xs else x # replaceFirst xs c d)"

definition removeAllCU :: "jstr \<Rightarrow> int \<Rightarrow> jstr" where
  "removeAllCU s c = filter (\<lambda>x. x \<noteq> c) s"

definition countCU :: "jstr \<Rightarrow> int \<Rightarrow> nat" where
  "countCU s c = length (filter (\<lambda>x. x = c) s)"

text \<open>
  \<open>Number(body)\<close> on a string of digits, dots and commas: digits with at most one dot
  read as a decimal number, anything else is \<open>NaN\<close> (\<open>None\<close>). JavaScript numbers are
  modelled by exact rationals, so a literal too long for a double is not rounded here.
\<close>

definition digitsValue :: "jstr \<Rightarrow> int" where
  "digitsValue ds = foldl (\<lambda>acc c. acc * 10 + (c - 48)) 0 ds"

definition jsNumber :: "jstr \<Rightarrow> rat option" where
  "jsNumber s =
     (let ip = takeWhile isDigit s; rest = dropWhile isDigit s
      in if s = [] then Some 0
         else if rest = [] then Some (of_int (digitsValue ip))
         else if hd rest = 46 \<and> list_all isDigit (tl rest) \<and> (ip \<noteq> [] \<or> tl rest \<noteq> [])
           then Some (of_int (digitsValue ip) + of_int (digitsValue (tl rest)) / 10 ^ length (tl rest))
         else None)"

text \<open>\<open>Math.round\<close>: the nearest integer, a half rounding up.\<close>

definition mathRound :: "rat \<Rightarrow> int" where
  "mathRound x = \<lfloor>x + 1 / 2\<rfloor>"

definition normalizeBody :: "jstr \<Rightarrow> jstr" where
  "normalizeBody body0 =
     (let commaCount = countCU body0 44; dotCount = countCU body0 46
      in if commaCount > 0 \<and> dotCount > 0 then
           (let lastComma = lastIndexOf body0 44;
                lastDot = lastIndexOf body0 46;
                decimalSep = (if lastComma > lastDot then 44 else 46 :: int);
                thousandsSep = (if decimalSep = 44 then 46 else 44 :: int);
                body1 = removeAllCU body0 thousandsSep
            in if decimalSep = 44 then replaceFirst body1 44 46 else body1)
         else if commaCount > 0 then
           (if commaCount > 1 then removeAllCU body0 44
            else let idx = indexOf body0 44;
                     digitsAfter = int (length body0) - idx - 1
                 in if digitsAfter = 3 then removeAllCU body0 44 else replaceFirst body0 44 46)
         else if dotCount > 1 then
           (let last = lastIndexOf body0 46;
                digitsAfter = int (length body0) - last - 1
            in if digitsAfter = 3 then removeAllCU body0 46
               else removeAllCU (take (nat last) body0) 46 @ [46] @ drop (nat (last + 1)) body0)
         else body0)"

definition parseNumberToken :: "jstr \<Rightarrow> int option" where
  "parseNumberToken raw =
     (let text = cleanText raw
      in if text = [] then None
         else case jsMatch numberTokenRe True text of
                None \<Rightarrow> None
              | Some m \<Rightarrow>
                  if capture m 1 = [] then None
                  else let body0 = trim (filter (\<lambda>c. \<not> isSpace c)
                                      (map (\<lambda>c. if c = 160 then 32 else c) (capture m 1)))
                       in if body0 = [] then None
                          else case jsNumber (normalizeBody body0) of
                                 None \<Rightarrow> None
                               | Some n \<Rightarrow>
                                   let suffix = toLowerCase (capture m 2)
                                   in if suffix = [107] \<or> suffix = [1082] then Some (mathRound (n * 1000))
                                      else if suffix = [109] \<or> suffix = [1084] then Some (mathRound (n * 1000000))
                                      else Some (mathRound n))"

text \<open>
  The unit words of \<open>parsePublishedIso\<close>, in the order of the regular expression
  \<open>/(\d+)\s*(m|min|\<dots>)\b/i\<close>, and its table \<open>offsets\<close>. The Cyrillic words are written
  as code units (U+0430 is 1072).
\<close>

definition unitWords :: "jstr list" where
  "unitWords =
     [asc ''m'',
      asc ''min'',
      asc ''mins'',
      asc ''minute'',
      asc ''minutes'',
      asc ''h'',
      asc ''hr'',
      asc ''hrs'',
      asc ''hour'',
      asc ''hours'',
      asc ''d'',
      asc ''day'',
      asc ''days'',
      asc ''w'',
      asc ''wk'',
      asc ''wks'',
      asc ''week'',
      asc ''weeks'',
      asc ''mo'',
      asc ''mos'',
      asc ''month'',
      asc ''months'',
      asc ''y'',
      asc ''yr'',
      asc ''yrs'',
      asc ''year'',
      asc ''years'',
      [1084, 1080, 1085],
      [1084, 1080, 1085, 1091, 1090, 1072],
      [1084, 1080, 1085, 1091, 1090],
      [1095],
      [1095, 1072, 1089],
      [1095, 1072, 1089, 1072],
      [1095, 1072, 1089, 1086, 1074],
      [1076, 1085],
      [1076],
      [1076, 1077, 1085, 1100],
      [1076, 1085, 1103],
      [1076, 1085, 1077, 1081],
      [1085, 1077, 1076],
      [1085, 1077, 1076, 1077, 1083, 1103],
      [1085, 1077, 1076, 1077, 1083, 1080],
      [1085, 1077, 1076, 1077, 1083, 1100],
      [1084, 1077, 1089],
      [1084, 1077, 1089, 1103, 1094],
      [1084, 1077, 1089, 1103, 1094, 1072],
      [1084, 1077, 1089, 1103, 1094, 1077, 1074],
      [1075],
      [1075, 1086, 1076],
      [1075, 1086, 1076, 1072],
      [1083, 1077, 1090]]"

definition offsets :: "(jstr \<times> int) list" where
  "offsets =
     [(asc ''m'', 60 * 1000),
      (asc ''min'', 60 * 1000),
      (asc ''mins'', 60 * 1000),
      (asc ''minute'', 60 * 1000),
      (asc ''minutes'', 60 * 1000),
      ([1084, 1080, 1085], 60 * 1000),
      ([1084, 1080, 1085, 1091, 1090, 1072], 60 * 1000),
      ([1084, 1080, 1085, 1091, 1090], 60 * 1000),
      (asc ''h'', 60 * 60 * 1000),
      (asc ''hr'', 60 * 60 * 1000),
      (asc ''hrs'', 60 * 60 * 1000),
      (asc ''hour'', 60 * 60 * 1000),
      (asc ''hours'', 60 * 60 * 1000),
      ([1095], 60 * 60 * 1000),
      ([1095, 1072, 1089], 60 * 60 * 1000),
      ([1095, 1072, 1089, 1072], 60 * 60 * 1000),
      ([1095, 1072, 1089, 1086, 1074], 60 * 60 * 1000),
      (asc ''d'', 24 * 60 * 60 * 1000),
      (asc ''day'', 24 * 60 * 60 * 1000),
      (asc ''days'', 24 * 60 * 60 * 1000),
      ([1076, 1085], 24 * 60 * 60 * 1000),
      ([1076], 24 * 60 * 60 * 1000),
      ([1076, 1077, 1085, 1100], 24 * 60 * 60 * 1000),
      ([1076, 1085, 1103], 24 * 60 * 60 * 1000),
      ([1076, 1085, 1077, 1081], 24 * 60 * 60 * 1000),
      (asc ''w'', 7 * 24 * 60 * 60 * 1000),
      (asc ''wk'', 7 * 24 * 60 * 60 * 1000),
      (asc ''wks'', 7 * 24 * 60 * 60 * 1000),
      (asc ''week'', 7 * 24 * 60 * 60 * 1000),
      (asc ''weeks'', 7 * 24 * 60 * 60 * 1000),
      ([1085, 1077, 1076], 7 * 24 * 60 * 60 * 1000),
      ([1085, 1077, 1076, 1077, 1083, 1103], 7 * 24 * 60 * 60 * 1000),
      ([1085, 1077, 1076, 1077, 1083, 1080], 7 * 24 * 60 * 60 * 1000),
      ([1085, 1077, 1076, 1077, 1083, 1100], 7 * 24 * 60 * 60 * 1000),
      (asc ''mo'', 30 * 24 * 60 * 60 * 1000),
      (asc ''mos'', 30 * 24 * 60 * 60 * 1000),
      (asc ''month'', 30 * 24 * 60 * 60 * 1000),
      (asc ''months'', 30 * 24 * 60 * 60 * 1000),
      ([1084, 1077, 1089], 30 * 24 * 60 * 60 * 1000),
      ([1084, 1077, 1089, 1103, 1094], 30 * 24 * 60 * 60 * 1000),
      ([1084, 1077, 1089, 1103, 1094, 1072], 30 * 24 * 60 * 60 * 1000),
      ([1084, 1077, 1089, 1103, 1094, 1077, 1074], 30 * 24 * 60 * 60 * 1000),
      (asc ''y'', 365 * 24 * 60 * 60 * 1000),
      (asc ''yr'', 365 * 24 * 60 * 60 * 1000),
      (asc ''yrs'', 365 * 24 * 60 * 60 * 1000),
      (asc ''year'', 365 * 24 * 60 * 60 * 1000),
      (asc ''years'', 365 * 24 * 60 * 60 * 1000),
      ([1075], 365 * 24 * 60 * 60 * 1000),
      ([1075, 1086, 1076], 365 * 24 * 60 * 60 * 1000),
      ([1075, 1086, 1076, 1072], 365 * 24 * 60 * 60 * 1000),
      ([1083, 1077, 1090], 365 * 24 * 60 * 60 * 1000)]"

definition publishedRe :: re where
  "publishedRe =
     Seq (Grp 1 (Plus (Cls [Digit])))
       (Seq (Star (Cls [Space])) (Seq (Grp 2 (alts (map lit unitWords))) WordB))"

datatype jsError = RangeError

text \<open>
  \<open>new Date(t).toISOString()\<close> raises \<open>RangeError\<close> when the time value is outside
  \<open>\<plusminus>8.64e15\<close> milliseconds.
\<close>

definition dateToISOString :: "platform \<Rightarrow> int \<Rightarrow> jsError + jstr" where
  "dateToISOString pf t =
     (if \<bar>t\<bar> \<le> 8640000000000000 then Inr (toISOString pf t) else Inl RangeError)"

text \<open>
  The relative branch of \<open>parsePublishedIso\<close>, from the regular expression to the
  product \<open>n * step\<close>; \<open>None\<close> is its \<open>return null\<close>.
\<close>

definition relativeOffsetMs :: "jstr \<Rightarrow> int option" where
  "relativeOffsetMs v =
     (case jsMatch publishedRe True v of
        None \<Rightarrow> None
      | Some m \<Rightarrow>
          let n = digitsValue (capture m 1)
          in if n \<le> 0 then None
             else let unit = toLowerCase (capture m 2)
                  in case map_of offsets unit of
                       None \<Rightarrow> None
                     | Some step \<Rightarrow> if step = 0 then None else Some (n * step))"

definition parsePublishedIso :: "platform \<Rightarrow> int \<Rightarrow> jstr \<Rightarrow> jsError + jstr option" where
  "parsePublishedIso pf now raw =
     (let v = cleanText raw
      in if v = [] then Inr None
         else case dateParse pf v of
                Some direct \<Rightarrow> Inr (Some (toISOString pf direct))
              | None \<Rightarrow>
                  (case relativeOffsetMs v of
                     None \<Rightarrow> Inr None
                   | Some off \<Rightarrow> map_sum id Some (dateToISOString pf (now - off))))"

text \<open>
  The tokens of the examples: \<open>"3 \<dots>."\<close> with the Russian abbreviation of thousand
  (U+0442 U+044B U+0441), \<open>"3 \<dots>"\<close> with Cyrillic ka, and \<open>"2 \<dots>"\<close> with the Russian
  word for weeks (U+043D U+0435 U+0434 U+0435 U+043B U+0438).
\<close>

definition tokenThreeTys :: jstr where
  "tokenThreeTys = asc ''3 '' @ [1090, 1099, 1089] @ asc ''.''"

definition tokenThreeKa :: jstr where
  "tokenThreeKa = asc ''3 '' @ [1082]"

definition tokenTwoWeeksRu :: jstr where
  "tokenTwoWeeksRu = asc ''2 '' @ [1085, 1077, 1076, 1077, 1083, 1080]"

section \<open>Comment assist: the status line after a failed generation (content and background scripts)\<close>

text \<open>
  The JSON body of a backend response, as \<open>toBackendErrorMessage\<close> reads it: each of
  \<open>detail\<close>, \<open>error\<close> and \<open>message\<close> is \<open>Some s\<close> when the field is a string, and
  \<open>None\<close> otherwise. \<open>None\<close> for the payload is a body that is not an object.
\<close>

record payload =
  detail :: "jstr option"
  error :: "jstr option"
  message :: "jstr option"

text \<open>A non-negative integer in decimal, as a template string prints it.\<close>

fun decimalDigits :: "nat \<Rightarrow> nat \<Rightarrow> jstr" where
  "decimalDigits 0 n = []"
| "decimalDigits (Suc fuel) n =
     (if n < 10 then [48 + int n] else decimalDigits fuel (n div 10) @ [48 + int (n mod 10)])"

definition decimal :: "nat \<Rightarrow> jstr" where
  "decimal n = decimalDigits (Suc n) n"

definition nonEmptyString :: "jstr option \<Rightarrow> bool" where
  "nonEmptyString v = (case v of None \<Rightarrow> False | Some s \<Rightarrow> s \<noteq> [])"

definition toBackendErrorMessage :: "nat \<Rightarrow> payload option \<Rightarrow> jstr \<Rightarrow> jstr" where
  "toBackendErrorMessage status pl fallback =
     (case pl of
        Some p \<Rightarrow>
          if nonEmptyString (detail p) then the (detail p)
          else if nonEmptyString (error p) then the (error p)
          else if nonEmptyString (message p) then the (message p)
          else fallback @ asc '' (HTTP '' @ decimal status @ asc '')''
      | None \<Rightarrow> fallback @ asc '' (HTTP '' @ decimal status @ asc '')'')"

text \<open>The messages of \<open>setCommentAssistError\<close>, in Russian, as code units.\<close>

definition msgGenericFallback :: jstr where
  "msgGenericFallback =
     [1054, 1096, 1080, 1073, 1082, 1072] @ asc '' '' @ [1075, 1077, 1085, 1077, 1088, 1072,
     1094, 1080, 1080] @ asc '' '' @ [1082, 1086, 1084, 1084, 1077, 1085, 1090, 1072, 1088,
     1080, 1103] @ asc ''.''"

definition msgNetwork :: jstr where
  "msgNetwork =
     [1053, 1077, 1090] @ asc '' '' @ [1089, 1074, 1103, 1079, 1080] @ asc '' '' @ [1089] @
     asc '' backend. '' @ [1055, 1088, 1086, 1074, 1077, 1088, 1100] @ asc '' '' @ [1072,
     1076, 1088, 1077, 1089] @ asc '' '' @ [1074] @ asc '' extension options.''"

definition msgLogin :: jstr where
  "msgLogin =
     [1053, 1091, 1078, 1077, 1085] @ asc '' '' @ [1074, 1093, 1086, 1076] @ asc '' '' @
     [1074] @ asc '' MyVOICE. '' @ [1054, 1090, 1082, 1088, 1086, 1081] @ asc '' extension
     options '' @ [1080] @ asc '' '' @ [1085, 1072, 1078, 1084, 1080] @ asc '' Open Login.''"

definition msgForbidden :: jstr where
  "msgForbidden =
     [1044, 1086, 1089, 1090, 1091, 1087] @ asc '' '' @ [1082] @ asc '' '' @ [1075, 1077,
     1085, 1077, 1088, 1072, 1094, 1080, 1080] @ asc '' '' @ [1086, 1075, 1088, 1072, 1085,
     1080, 1095, 1077, 1085] @ asc ''. '' @ [1055, 1088, 1086, 1074, 1077, 1088, 1100] @ asc
     '' '' @ [1090, 1072, 1088, 1080, 1092] @ asc '' '' @ [1080, 1083, 1080] @ asc '' '' @
     [1083, 1080, 1084, 1080, 1090, 1099] @ asc ''.''"

definition msgNotFound :: jstr where
  "msgNotFound =
     [1057, 1077, 1088, 1074, 1080, 1089] @ asc '' '' @ [1075, 1077, 1085, 1077, 1088, 1072,
     1094, 1080, 1080] @ asc '' '' @ [1085, 1077] @ asc '' '' @ [1085, 1072, 1081, 1076,
     1077, 1085] @ asc '' '' @ [1085, 1072] @ asc '' backend.''"

definition msgPickAuthor :: jstr where
  "msgPickAuthor =
     [1042, 1099, 1073, 1077, 1088, 1080, 1090, 1077] @ asc '' '' @ [1072, 1074, 1090, 1086,
     1088, 1072] @ asc '' '' @ [1074] @ asc '' '' @ [1073, 1083, 1086, 1082, 1077] @ asc ''
     MyVOICE'' @ [39] @ asc ''s '' @ [1080] @ asc '' '' @ [1087, 1086, 1087, 1088, 1086,
     1073, 1091, 1081, 1090, 1077] @ asc '' '' @ [1089, 1085, 1086, 1074, 1072] @ asc ''.''"

definition wordAuthor :: jstr where
  "wordAuthor =
     [1072, 1074, 1090, 1086, 1088]"

definition wordNotChosen :: jstr where
  "wordNotChosen =
     [1085, 1077] @ asc '' '' @ [1074, 1099, 1073, 1088, 1072, 1085]"

definition wordAdd :: jstr where
  "wordAdd =
     [1076, 1086, 1073, 1072, 1074]"

record assistStatus =
  statusText :: jstr
  statusKind :: jstr
  statusDetails :: jstr

definition setCommentAssistError :: "jstr \<Rightarrow> assistStatus" where
  "setCommentAssistError rawMessage =
     (let msg = cleanText rawMessage;
          low = toLowerCase msg;
          text0 = (if msg \<noteq> [] then msg else msgGenericFallback);
          text1 =
            (if includesStr low (asc ''can't reach backend'') \<or> includesStr low (asc ''failed to fetch'')
                \<or> includesStr low (asc ''network error'')
             then msgNetwork
             else if includesStr low (asc ''401'') \<or> includesStr low (asc ''unauthorized'') then msgLogin
             else if includesStr low (asc ''403'') then msgForbidden
             else if includesStr low (asc ''404'') then msgNotFound
             else if includesStr low wordAuthor \<and> (includesStr low wordNotChosen \<or> includesStr low wordAdd)
               then msgPickAuthor
             else text0)
      in \<lparr>statusText = text1, statusKind = asc ''error'', statusDetails = msg\<rparr>)"

text \<open>
  The path of a failed generation request: \<open>backendRequest\<close> throws
  \<open>toBackendErrorMessage(response.status, payload)\<close> (with the default fallback), the
  message handler sends the message back as \<open>error\<close>, and \<open>generateCommentVariants\<close>
  passes it to \<open>setCommentAssistError\<close>.
\<close>

definition statusAfterBackendError :: "nat \<Rightarrow> payload option \<Rightarrow> assistStatus" where
  "statusAfterBackendError status pl =
     setCommentAssistError (toBackendErrorMessage status pl (asc ''Request failed''))"

text \<open>The body \<open>{"detail": "Not authenticated"}\<close> of a 401 response.\<close>

definition notAuthenticatedBody :: payload where
  "notAuthenticatedBody = \<lparr>detail = Some (asc ''Not authenticated''), error = None, message = None\<rparr>"

section \<open>Ranking (background script)\<close>











definition PROFILE_TOP_POSTS_WINDOW_DAYS :: int where
  "PROFILE_TOP_POSTS_WINDOW_DAYS = 90"

definition PROFILE_TOP_POSTS_LIMIT :: nat where
  "PROFILE_TOP_POSTS_LIMIT = 10"




section \<open>Duplicate keys of the popup\<close>

text \<open>
  The popup has its own \<open>normalizedDay\<close> and \<open>normalizedSnippet\<close> (220 code units),
  reads \<open>content\<close> before \<open>text\<close>, and derives a set of keys for a post. A JavaScript
  \<open>Set\<close> iterates in insertion order: a list, to which \<open>add\<close> appends a value that is
  not yet in it.
\<close>

definition normalizedDay_popup :: "platform \<Rightarrow> jstr \<Rightarrow> jstr" where
  "normalizedDay_popup pf v =
     (let raw = cleanText_bg v
      in if raw = [] then []
         else case dateParse pf raw of
                None \<Rightarrow> []
              | Some t \<Rightarrow> take 10 (toISOString pf t))"

definition normalizedSnippet_popup :: "jstr \<Rightarrow> jstr" where
  "normalizedSnippet_popup v = take 220 (collapseSpaces (toLowerCase (cleanText_bg v)))"

definition normalizeLinkedInUrl :: "platform \<Rightarrow> jstr \<Rightarrow> jstr" where
  "normalizeLinkedInUrl pf rawUrl =
     (let raw = cleanText_bg rawUrl
      in if raw = [] then []
         else let activityId = extractActivityId raw
              in if activityId \<noteq> []
                 then asc ''https://www.linkedin.com/feed/update/urn:li:activity:'' @ activityId @ asc ''/''
                 else case urlWithoutSearchAndHash pf raw of
                        None \<Rightarrow> raw
                      | Some u \<Rightarrow> stripTrailingSlashes u)"

definition setAdd :: "jstr list \<Rightarrow> jstr \<Rightarrow> jstr list" where
  "setAdd ks k = (if k \<in> set ks then ks else ks @ [k])"

definition snippetOf :: "post \<Rightarrow> jstr" where
  "snippetOf p = normalizedSnippet_popup (orElse (content p) (orElse (post_text p) (title p)))"

definition dayOf :: "platform \<Rightarrow> post \<Rightarrow> jstr" where
  "dayOf pf p = normalizedDay_popup pf (orElse (posted_at p) (posted_at_iso p))"

definition postIdentityKeys :: "platform \<Rightarrow> post \<Rightarrow> jstr list" where
  "postIdentityKeys pf p =
     (let activityId =
            orElse (extractActivityId (post_url p))
              (orElse (extractActivityId (title p))
                (orElse (extractActivityId (content p)) (extractActivityId (post_text p))));
          keys1 = (if activityId \<noteq> [] then setAdd [] (asc ''activity:'' @ activityId) else []);
          normalizedUrl = normalizeLinkedInUrl pf (post_url p);
          keys2 = (if normalizedUrl \<noteq> [] then setAdd keys1 (asc ''url:'' @ normalizedUrl) else keys1);
          snippet = snippetOf p
      in if snippet \<noteq> []
         then let day = dayOf pf p;
                  keys3 = (if day \<noteq> [] then setAdd keys2 (asc ''txt:'' @ day @ asc ''|'' @ snippet) else keys2)
              in setAdd keys3 (asc ''txt:|'' @ snippet)
         else keys2)"

definition isStableKey :: "jstr \<Rightarrow> bool" where
  "isStableKey key = (startsWith key (asc ''activity:'') \<or> startsWith key (asc ''url:''))"

definition hasStableIdentityKey :: "jstr list \<Rightarrow> bool" where
  "hasStableIdentityKey keys = list_ex isStableKey keys"

definition isDuplicateAgainstKeySet :: "platform \<Rightarrow> post \<Rightarrow> jstr list \<Rightarrow> bool" where
  "isDuplicateAgainstKeySet pf p keySet =
     (let keys = postIdentityKeys pf p
      in if keys = [] then False
         else let snippet = snippetOf p;
                  isStrongTextFingerprint = (length snippet \<ge> 80);
                  stableKeys = filter isStableKey keys;
                  textKeys = filter (\<lambda>key. \<not> isStableKey key \<and> startsWith key (asc ''txt:'')) keys
              in if list_ex (\<lambda>key. key \<in> set keySet) stableKeys then True
                 else let daySpecificTextKeys =
                            filter (\<lambda>key. startsWith key (asc ''txt:'') \<and> \<not> startsWith key (asc ''txt:|'')) textKeys;
                          noDayTextKeys = filter (\<lambda>key. startsWith key (asc ''txt:|'')) textKeys;
                          keysToCheck =
                            (if isStrongTextFingerprint then daySpecificTextKeys @ noDayTextKeys
                             else daySpecificTextKeys)
                      in if list_ex (\<lambda>key. key \<in> set keySet) keysToCheck then True
                         else if list_ex (\<lambda>key. (asc ''legacy_'' @ key) \<in> set keySet) keysToCheck then True
                         else False)"

definition addIdentityKeysToSet :: "platform \<Rightarrow> jstr list \<Rightarrow> post \<Rightarrow> jstr list" where
  "addIdentityKeysToSet pf keySet p =
     (let keys = postIdentityKeys pf p
      in if keys = [] then keySet
         else let set1 = foldl (\<lambda>s key. if key \<noteq> [] then setAdd s key else s) keySet keys
              in if \<not> hasStableIdentityKey keys
                 then foldl (\<lambda>s key. if key \<noteq> [] \<and> startsWith key (asc ''txt:'')
                                      then setAdd s (asc ''legacy_'' @ key) else s) set1 keys
                 else set1)"

text \<open>
  A short post without a date, first captured without a URL and then with one.
\<close>

definition postHello :: post where
  "postHello = emptyPost\<lparr>content := asc ''Hello world''\<rparr>"

definition postHelloWithUrl :: post where
  "postHelloWithUrl = postHello\<lparr>post_url := asc ''https://www.linkedin.com/posts/x''\<rparr>"

definition postHelloDated :: post where
  "postHelloDated = postHello\<lparr>posted_at := asc ''2024-05-01T00:00:00.000Z''\<rparr>"

definition postHelloDatedWithUrl :: post where
  "postHelloDatedWithUrl = postHelloDated\<lparr>post_url := asc ''https://www.linkedin.com/posts/x''\<rparr>"

section \<open>Activity ids embedded in a string\<close>

text \<open>
  What it means for a string to embed an activity id in a recognized shape, said without
  the regular expressions: at some position one of the markers stands (in any letter
  case), followed by a run of at least eight digits; the id is the whole run.
\<close>

fun startsWithCI :: "jstr \<Rightarrow> jstr \<Rightarrow> bool" where
  "startsWithCI s [] = True"
| "startsWithCI [] (d # ds) = False"
| "startsWithCI (c # cs) (d # ds) = (canonicalize c = canonicalize d \<and> startsWithCI cs ds)"

definition idAt :: "jstr \<Rightarrow> jstr \<Rightarrow> jstr option" where
  "idAt marker s =
     (let run = takeWhile isDigit (drop (length marker) s)
      in if startsWithCI s marker \<and> length run \<ge> 8 then Some run else None)"

fun embeddedIds :: "jstr \<Rightarrow> jstr list" where
  "embeddedIds [] = []"
| "embeddedIds (c # s) = List.map_filter (\<lambda>marker. idAt marker (c # s)) activityMarkers @ embeddedIds s"



section \<open>Auxiliary functions of the proofs\<close>





section \<open>Profile scrape orchestrator (background script)\<close>

subsection \<open>Profiles\<close>

text \<open>
  \<open>new URL(raw)\<close> gives \<open>origin\<close>, \<open>hostname\<close> and \<open>pathname\<close>, or throws (\<open>None\<close>);
  \<open>decodeURIComponent\<close> throws on a malformed escape (\<open>None\<close>). Both belong to the
  browser.
\<close>

record urlParts =
  url_origin :: jstr
  url_hostname :: jstr
  url_pathname :: jstr

record browser =
  urlParse :: "jstr \<Rightarrow> urlParts option"
  decodeURIComponent :: "jstr \<Rightarrow> jstr option"

record profile =
  slug :: jstr
  profileKey :: jstr
  profileUrl :: jstr
  recentActivityUrl :: jstr
  displayName :: jstr

text \<open>\<open>s.split(sep)\<close> on one code unit, \<open>s.endsWith(t)\<close>, and \<open>words.join(" ")\<close>.\<close>

fun splitOn :: "int \<Rightarrow> jstr \<Rightarrow> jstr list" where
  "splitOn sep [] = [[]]"
| "splitOn sep (c # cs) =
     (if c = sep then [] # splitOn sep cs
      else case splitOn sep cs of [] \<Rightarrow> [[c]] | w # ws \<Rightarrow> (c # w) # ws)"

definition endsWith :: "jstr \<Rightarrow> jstr \<Rightarrow> bool" where
  "endsWith s t = startsWith (rev s) (rev t)"

fun joinWith :: "jstr \<Rightarrow> jstr list \<Rightarrow> jstr" where
  "joinWith sep [] = []"
| "joinWith sep [w] = w"
| "joinWith sep (w # ws) = w @ sep @ joinWith sep ws"

text \<open>\<open>s.replace(/[-_]+/g, " ")\<close>: every run of hyphens and underscores becomes one space.\<close>

function replaceDashRuns :: "jstr \<Rightarrow> jstr" where
  "replaceDashRuns [] = []"
| "replaceDashRuns (c # cs) =
     (if c = 45 \<or> c = 95 then 32 # replaceDashRuns (dropWhile (\<lambda>d. d = 45 \<or> d = 95) cs)
      else c # replaceDashRuns cs)"
  by pat_completeness auto
termination
  by (relation "measure length") (auto simp: length_dropWhile_le less_Suc_eq_le)

definition isLinkedInHost :: "jstr \<Rightarrow> bool" where
  "isLinkedInHost hostname =
     (let host = toLowerCase hostname
      in host = asc ''linkedin.com'' \<or> host = asc ''www.linkedin.com'' \<or> endsWith host (asc ''.linkedin.com''))"

definition buildDisplayNameFromSlug :: "browser \<Rightarrow> jstr \<Rightarrow> jstr option" where
  "buildDisplayNameFromSlug br sl =
     (case decodeURIComponent br (cleanText_bg sl) of
        None \<Rightarrow> None
      | Some decoded \<Rightarrow>
          let normalized = trim (collapseSpaces (replaceDashRuns decoded))
          in if normalized = [] then Some []
             else let words = take 6 (filter (\<lambda>w. w \<noteq> []) (splitOn 32 normalized))
                  in Some (joinWith (asc '' '')
                             (map (\<lambda>word. map toUpperCU (take 1 word) @ drop 1 word) words)))"

definition parseLinkedInProfile :: "browser \<Rightarrow> jstr \<Rightarrow> profile option" where
  "parseLinkedInProfile br url =
     (let raw = cleanText_bg url
      in if raw = [] then None
         else case urlParse br raw of
                None \<Rightarrow> None
              | Some parsed \<Rightarrow>
                  if \<not> isLinkedInHost (url_hostname parsed) then None
                  else let parts = filter (\<lambda>part. part \<noteq> [])
                                     (map (\<lambda>part. toLowerCase (cleanText_bg part))
                                        (splitOn 47 (url_pathname parsed)))
                       in if length parts < 2 \<or> parts ! 0 \<noteq> asc ''in'' then None
                          else let sl = parts ! 1
                               in case buildDisplayNameFromSlug br sl of
                                    None \<Rightarrow> None
                                  | Some dn \<Rightarrow>
                                      Some \<lparr>slug = sl,
                                            profileKey = asc ''in/'' @ sl,
                                            profileUrl = url_origin parsed @ asc ''/in/'' @ sl @ asc ''/'',
                                            recentActivityUrl =
                                              url_origin parsed @ asc ''/in/'' @ sl @ asc ''/recent-activity/all/'',
                                            displayName = dn\<rparr>)"

subsection \<open>Errors and cancellation\<close>

record jsErr =
  err_code :: jstr
  err_message :: jstr

definition SCRAPE_CANCELLED_CODE :: jstr where
  "SCRAPE_CANCELLED_CODE = asc ''SCRAPE_CANCELLED''"

definition cancelledError :: jsErr where
  "cancelledError = \<lparr>err_code = SCRAPE_CANCELLED_CODE, err_message = SCRAPE_CANCELLED_CODE\<rparr>"

definition newError :: "jstr \<Rightarrow> jsErr" where
  "newError msg = \<lparr>err_code = [], err_message = msg\<rparr>"

definition isCancelledError :: "jsErr \<Rightarrow> bool" where
  "isCancelledError err =
     (cleanText_bg (err_code err) = SCRAPE_CANCELLED_CODE \<or>
      cleanText_bg (err_message err) = SCRAPE_CANCELLED_CODE)"

subsection \<open>One scrape job, await by await\<close>

text \<open>
  The calls to \<open>chrome.tabs\<close> that a job makes, in the order it makes them. \<open>TabOpened\<close>
  is not a call: it records the id with which \<open>chrome.tabs.create\<close> resolved.
\<close>

datatype tabEvent =
    TabCreate jstr
  | TabOpened int
  | TabSendMessage int
  | TabReload int
  | TabRemove int

text \<open>The data of a successful extraction, and the response of the content script.\<close>

record extracted =
  ex_posts :: "post list"
  profile_name :: jstr
  profile_avatar_url :: jstr

record response =
  r_ok :: bool
  r_data :: "extracted option"
  r_error :: jstr

text \<open>
  How \<open>scrapeProfilePosts\<close> ends: it returns the data or throws. Where it is suspended:
  at each \<open>await\<close> of \<open>scrapeProfilePosts\<close> and of \<open>requestPostsFromTab\<close> (with the tab
  id and, in the retry loop, the attempt), the last one being the \<open>await\<close> of
  \<open>safeCloseTab\<close> in the \<open>finally\<close> block, which remembers how the \<open>try\<close> block ended.
\<close>

datatype outcome = Return extracted | Throw jsErr

datatype awaiting =
    AwCreate
  | AwLoad int
  | AwSleep int
  | AwSend int nat
  | AwReload int nat
  | AwReloadLoad int nat
  | AwRetrySleep int nat
  | AwClose int outcome

text \<open>What an awaited operation delivers when the job is resumed.\<close>

datatype signal =
    SigCreated "int option"
  | SigOk
  | SigResponse "response option"
  | SigRejected jsErr

text \<open>
  \<open>job.tabId\<close>: set after \<open>chrome.tabs.create\<close>, cleared at the start of the
  \<open>finally\<close> block.
\<close>

fun jobTabId :: "awaiting \<Rightarrow> int option" where
  "jobTabId AwCreate = None"
| "jobTabId (AwLoad t) = Some t"
| "jobTabId (AwSleep t) = Some t"
| "jobTabId (AwSend t n) = Some t"
| "jobTabId (AwReload t n) = Some t"
| "jobTabId (AwReloadLoad t n) = Some t"
| "jobTabId (AwRetrySleep t n) = Some t"
| "jobTabId (AwClose t oc) = None"

text \<open>
  What the job does when it is resumed: it suspends again (after the listed calls), or
  enters the \<open>finally\<close> block to close its tab, or completes without one, or (for a
  signal that does not answer its \<open>await\<close>) stays as it is.
\<close>

datatype action =
    Wait awaiting "tabEvent list"
  | Finally int outcome "tabEvent list"
  | Complete outcome
  | Ignore

definition validTabId :: "int option \<Rightarrow> bool" where
  "validTabId tid = (case tid of None \<Rightarrow> False | Some t \<Rightarrow> t > 0)"

definition responseOutcome :: "bool \<Rightarrow> response option \<Rightarrow> outcome" where
  "responseOutcome cancelled resp =
     (case resp of
        None \<Rightarrow> Throw (newError (asc ''Failed to parse profile posts from LinkedIn.''))
      | Some r \<Rightarrow>
          (case r_data r of
             Some d \<Rightarrow>
               if r_ok r then (if cancelled then Throw cancelledError else Return d)
               else Throw (newError (if r_error r \<noteq> [] then r_error r
                                     else asc ''Failed to parse profile posts from LinkedIn.''))
           | None \<Rightarrow>
               Throw (newError (if r_error r \<noteq> [] then r_error r
                                else asc ''Failed to parse profile posts from LinkedIn.''))))"

fun continuation :: "bool \<Rightarrow> awaiting \<Rightarrow> signal \<Rightarrow> action" where
  "continuation cancelled AwCreate (SigCreated tid) =
     (if \<not> validTabId tid then Complete (Throw (newError (asc ''Failed to open a hidden LinkedIn tab.'')))
      else if cancelled then Finally (the tid) (Throw cancelledError) [TabOpened (the tid)]
      else Wait (AwLoad (the tid)) [TabOpened (the tid)])"
| "continuation cancelled AwCreate (SigRejected e) = Complete (Throw e)"
| "continuation cancelled (AwLoad t) SigOk =
     (if cancelled then Finally t (Throw cancelledError) [] else Wait (AwSleep t) [])"
| "continuation cancelled (AwLoad t) (SigRejected e) = Finally t (Throw e) []"
| "continuation cancelled (AwSleep t) SigOk =
     (if cancelled then Finally t (Throw cancelledError) [] else Wait (AwSend t 1) [TabSendMessage t])"
| "continuation cancelled (AwSend t n) (SigResponse resp) = Finally t (responseOutcome cancelled resp) []"
| "continuation cancelled (AwSend t n) (SigRejected e) =
     (if n < 3 \<and> includesStr (err_message e) (asc ''Receiving end does not exist'')
      then Wait (AwReload t n) [TabReload t]
      else Finally t (Throw e) [])"
| "continuation cancelled (AwReload t n) SigOk = Wait (AwReloadLoad t n) []"
| "continuation cancelled (AwReload t n) (SigRejected e) = Finally t (Throw e) []"
| "continuation cancelled (AwReloadLoad t n) SigOk = Wait (AwRetrySleep t n) []"
| "continuation cancelled (AwReloadLoad t n) (SigRejected e) = Finally t (Throw e) []"
| "continuation cancelled (AwRetrySleep t n) SigOk = Wait (AwSend t (n + 1)) [TabSendMessage t]"
| "continuation cancelled (AwClose t oc) SigOk = Complete oc"
| "continuation cancelled aw sig = Ignore"

subsection \<open>The shared maps and the event loop\<close>

text \<open>
  The state of the background script: \<open>topPostsCache\<close>, \<open>topPostsInflight\<close> and
  \<open>topPostsJobs\<close>, keyed by \<open>profileKey\<close>; the runs (the promises \<open>run\<close>, numbered in
  the order of their creation) that are pending, each with its profile, the cache entry
  its closure captured, where it is suspended and its \<open>job.cancelled\<close>; the results of
  the settled runs; and a log of the calls to \<open>chrome.tabs\<close>, each with the profile key
  and the run it was made for. \<open>topPostsInflight\<close> and \<open>topPostsJobs\<close> hold the number
  of the run. The payload type \<open>'p\<close> and its construction from the extracted data
  (\<open>pickTopPosts\<close>, \<open>pickLatestPosts\<close> and the person fields) are parameters.
\<close>

record 'p running =
  rprofile :: profile
  rcached :: "'p option"
  rawait :: awaiting
  rcancelled :: bool

record 'p store =
  topPostsCache :: "jstr \<Rightarrow> (int \<times> 'p) option"
  topPostsInflight :: "jstr \<Rightarrow> nat option"
  topPostsJobs :: "jstr \<Rightarrow> nat option"
  runs :: "nat \<Rightarrow> 'p running option"
  settled :: "nat \<Rightarrow> (jsErr + 'p) option"
  nextRun :: nat
  tabLog :: "(jstr \<times> nat \<times> tabEvent) list"

record 'p payloads =
  buildPayload :: "profile \<Rightarrow> extracted \<Rightarrow> 'p"
  cancelledPayload :: 'p
  notProfilePayload :: 'p

definition initialStore :: "'p store" where
  "initialStore =
     \<lparr>topPostsCache = (\<lambda>k. None), topPostsInflight = (\<lambda>k. None), topPostsJobs = (\<lambda>k. None),
      runs = (\<lambda>r. None), settled = (\<lambda>r. None), nextRun = 0, tabLog = []\<rparr>"

definition TOP_POSTS_CACHE_TTL_MS :: int where
  "TOP_POSTS_CACHE_TTL_MS = 3 * 60 * 1000"

definition freshCache :: "'p store \<Rightarrow> jstr \<Rightarrow> int \<Rightarrow> bool" where
  "freshCache st key now =
     (case topPostsCache st key of
        None \<Rightarrow> False
      | Some cached \<Rightarrow> now - fst cached < TOP_POSTS_CACHE_TTL_MS)"

text \<open>
  What the caller of \<open>getProfileTopPosts\<close> holds when the call has run up to its first
  suspension: a value, or the promise of a run.
\<close>

datatype 'p reply = Resolved 'p | Awaits nat

text \<open>
  \<open>getProfileTopPosts\<close> up to its first suspension. When it starts a run, the body of the
  run and \<open>scrapeProfilePosts\<close> execute up to \<open>await chrome.tabs.create\<close> before
  \<open>topPostsInflight.set\<close>, all in one turn of the event loop.
\<close>

definition getProfileTopPosts ::
    "browser \<Rightarrow> 'p payloads \<Rightarrow> 'p store \<Rightarrow> int \<Rightarrow> jstr \<Rightarrow> 'p reply \<times> 'p store" where
  "getProfileTopPosts br pl st now url =
     (case parseLinkedInProfile br url of
        None \<Rightarrow> (Resolved (notProfilePayload pl), st)
      | Some prof \<Rightarrow>
          let key = profileKey prof
          in if freshCache st key now then (Resolved (snd (the (topPostsCache st key))), st)
             else case topPostsInflight st key of
                    Some run \<Rightarrow> (Awaits run, st)
                  | None \<Rightarrow>
                      let run = nextRun st;
                          job = \<lparr>rprofile = prof, rcached = map_option snd (topPostsCache st key),
                                 rawait = AwCreate, rcancelled = False\<rparr>
                      in (Awaits run,
                          st\<lparr>topPostsJobs := (topPostsJobs st)(key \<mapsto> run),
                             runs := (runs st)(run \<mapsto> job),
                             tabLog := tabLog st @ [(key, run, TabCreate (recentActivityUrl prof))],
                             topPostsInflight := (topPostsInflight st)(key \<mapsto> run),
                             nextRun := Suc run\<rparr>))"

text \<open>
  The end of a run: the rest of its body after \<open>scrapeProfilePosts\<close> has returned or
  thrown, its \<open>finally\<close> block, and the \<open>finally\<close> block of the caller that started it,
  all before another message is handled.
\<close>

definition finishRun :: "'p payloads \<Rightarrow> 'p store \<Rightarrow> nat \<Rightarrow> 'p running \<Rightarrow> outcome \<Rightarrow> int \<Rightarrow> 'p store" where
  "finishRun pl st run job oc now =
     (let key = profileKey (rprofile job);
          result =
            (case oc of
               Return d \<Rightarrow> Inr (buildPayload pl (rprofile job) d)
             | Throw e \<Rightarrow>
                 if isCancelledError e
                 then Inr (case rcached job of Some payload \<Rightarrow> payload | None \<Rightarrow> cancelledPayload pl)
                 else Inl e);
          cache =
            (case oc of
               Return d \<Rightarrow> (topPostsCache st)(key \<mapsto> (now, buildPayload pl (rprofile job) d))
             | Throw e \<Rightarrow> topPostsCache st)
      in st\<lparr>topPostsCache := cache,
            topPostsJobs := (topPostsJobs st)(key := None),
            topPostsInflight := (topPostsInflight st)(key := None),
            runs := (runs st)(run := None),
            settled := (settled st)(run \<mapsto> result)\<rparr>)"

definition tagged :: "jstr \<Rightarrow> nat \<Rightarrow> tabEvent list \<Rightarrow> (jstr \<times> nat \<times> tabEvent) list" where
  "tagged key run evs = map (\<lambda>ev. (key, run, ev)) evs"

text \<open>A pending run is resumed with what its awaited operation delivers.\<close>

definition resume :: "'p payloads \<Rightarrow> 'p store \<Rightarrow> nat \<Rightarrow> signal \<Rightarrow> int \<Rightarrow> 'p store" where
  "resume pl st run sig now =
     (case runs st run of
        None \<Rightarrow> st
      | Some job \<Rightarrow>
          let key = profileKey (rprofile job)
          in case continuation (rcancelled job) (rawait job) sig of
               Ignore \<Rightarrow> st
             | Wait aw evs \<Rightarrow>
                 st\<lparr>runs := (runs st)(run \<mapsto> job\<lparr>rawait := aw\<rparr>),
                    tabLog := tabLog st @ tagged key run evs\<rparr>
             | Finally t oc evs \<Rightarrow>
                 st\<lparr>runs := (runs st)(run \<mapsto> job\<lparr>rawait := AwClose t oc\<rparr>),
                    tabLog := tabLog st @ tagged key run (evs @ [TabRemove t])\<rparr>
             | Complete oc \<Rightarrow> finishRun pl st run job oc now)"

text \<open>The handler of \<open>MYVOICE_CANCEL_PROFILE_TOP_POSTS\<close>.\<close>

definition cancelProfileTopPosts :: "browser \<Rightarrow> 'p store \<Rightarrow> jstr \<Rightarrow> 'p store" where
  "cancelProfileTopPosts br st url =
     (case parseLinkedInProfile br (cleanText_bg url) of
        None \<Rightarrow> st
      | Some prof \<Rightarrow>
          (case topPostsJobs st (profileKey prof) of
             None \<Rightarrow> st
           | Some run \<Rightarrow>
               (case runs st run of
                  None \<Rightarrow> st
                | Some job \<Rightarrow>
                    st\<lparr>runs := (runs st)(run \<mapsto> job\<lparr>rcancelled := True\<rparr>),
                       tabLog := tabLog st @
                         (if validTabId (jobTabId (rawait job))
                          then [(profileKey prof, run, TabRemove (the (jobTabId (rawait job))))]
                          else [])\<rparr>)))"

text \<open>The turns of the event loop, and a run of them from the initial state.\<close>

datatype event =
    Request jstr int
  | Cancel jstr
  | Resume nat signal int

fun step :: "browser \<Rightarrow> 'p payloads \<Rightarrow> 'p store \<Rightarrow> event \<Rightarrow> 'p store" where
  "step br pl st (Request url now) = snd (getProfileTopPosts br pl st now (cleanText_bg url))"
| "step br pl st (Cancel url) = cancelProfileTopPosts br st url"
| "step br pl st (Resume run sig now) = resume pl st run sig now"

definition exec :: "browser \<Rightarrow> 'p payloads \<Rightarrow> 'p store \<Rightarrow> event list \<Rightarrow> 'p store" where
  "exec br pl st evs = foldl (step br pl) st evs"

text \<open>The number of tabs opened for a profile key, by the log.\<close>

fun isCreate :: "tabEvent \<Rightarrow> bool" where
  "isCreate (TabCreate u) = True"
| "isCreate ev = False"

definition creates :: "jstr \<Rightarrow> (jstr \<times> nat \<times> tabEvent) list \<Rightarrow> nat" where
  "creates key entries = length (filter (\<lambda>e. fst e = key \<and> isCreate (snd (snd e))) entries)"

subsection \<open>Invariants of the event loop\<close>

text \<open>
  The maps agree: a pending run is the one in flight and the job of its profile key, and
  the other way round; run numbers in use are below \<open>nextRun\<close>; a settled run is not
  pending.
\<close>

definition wellFormed :: "'p store \<Rightarrow> bool" where
  "wellFormed st =
     ((\<forall>r job. runs st r = Some job \<longrightarrow>
         r < nextRun st \<and>
         topPostsInflight st (profileKey (rprofile job)) = Some r \<and>
         topPostsJobs st (profileKey (rprofile job)) = Some r) \<and>
      (\<forall>k r. topPostsInflight st k = Some r \<longrightarrow>
         (\<exists>job. runs st r = Some job \<and> profileKey (rprofile job) = k)) \<and>
      (\<forall>k r. topPostsJobs st k = Some r \<longrightarrow>
         (\<exists>job. runs st r = Some job \<and> profileKey (rprofile job) = k)) \<and>
      (\<forall>k r ev. (k, r, ev) \<in> set (tabLog st) \<longrightarrow> r < nextRun st) \<and>
      (\<forall>r. settled st r \<noteq> None \<longrightarrow> r < nextRun st \<and> runs st r = None))"

text \<open>
  Every tab that was opened has been closed (a call to \<open>chrome.tabs.remove\<close> is in the
  log), or belongs to a pending run that holds it in \<open>job.tabId\<close> and is not cancelled.
\<close>

definition tabsAccounted :: "'p store \<Rightarrow> bool" where
  "tabsAccounted st =
     (\<forall>k r t. (k, r, TabOpened t) \<in> set (tabLog st) \<longrightarrow>
        (k, r, TabRemove t) \<in> set (tabLog st) \<or>
        (\<exists>job. runs st r = Some job \<and> jobTabId (rawait job) = Some t \<and> 0 < t \<and>
               \<not> rcancelled job \<and> profileKey (rprofile job) = k))"

text \<open>
  While run \<open>r\<close> is in flight for key \<open>k\<close>, the log holds \<open>c\<close> tab creations for \<open>k\<close>;
  afterwards \<open>r\<close> is no longer pending.
\<close>

definition inFlightOrDone :: "nat \<Rightarrow> jstr \<Rightarrow> nat \<Rightarrow> 'p store \<Rightarrow> bool" where
  "inFlightOrDone r k c s =
     ((topPostsInflight s k = Some r \<and> creates k (tabLog s) = c) \<or> (runs s r = None \<and> r < nextRun s))"

subsection \<open>An example run of the event loop\<close>

text \<open>
  A browser that parses the URLs of \<open>www.linkedin.com\<close>, payloads that are strings, a
  profile under two URLs, and a run in which the cancellation arrives while the
  extraction request is on its way and the response arrives after it.
\<close>

definition exampleBrowser :: browser where
  "exampleBrowser =
     \<lparr>urlParse =
        (\<lambda>s. if startsWith s (asc ''https://www.linkedin.com'')
             then Some \<lparr>url_origin = asc ''https://www.linkedin.com'',
                        url_hostname = asc ''www.linkedin.com'',
                        url_pathname = takeWhile (\<lambda>c. c \<noteq> 63 \<and> c \<noteq> 35) (drop 24 s)\<rparr>
             else None),
      decodeURIComponent = Some\<rparr>"

definition examplePayloads :: "jstr payloads" where
  "examplePayloads =
     \<lparr>buildPayload = (\<lambda>prof d. asc ''posts of '' @ slug prof),
      cancelledPayload = asc ''cancelled'',
      notProfilePayload = asc ''not_profile_page''\<rparr>"

definition janeUrl :: jstr where
  "janeUrl = asc ''https://www.linkedin.com/in/jane-doe/''"

definition janeUrlWithQuery :: jstr where
  "janeUrlWithQuery = asc ''https://www.linkedin.com/in/Jane-Doe/?trk=share''"

definition janeProfile :: profile where
  "janeProfile =
     \<lparr>slug = asc ''jane-doe'',
      profileKey = asc ''in/jane-doe'',
      profileUrl = asc ''https://www.linkedin.com/in/jane-doe/'',
      recentActivityUrl = asc ''https://www.linkedin.com/in/jane-doe/recent-activity/all/'',
      displayName = asc ''Jane Doe''\<rparr>"



section \<open>Verification\<close>

subsection \<open>Deduplication\<close>


lemma postIdentityKey_nonempty: "postIdentityKey pf p \<noteq> []"
  by (simp add: postIdentityKey_def Let_def asc_def)



lemma dedupeStep_keys:
  "map fst (dedupeStep pf al p) =
     (if postIdentityKey pf p \<in> set (map fst al) then map fst al else map fst al @ [postIdentityKey pf p])"
  by (auto simp: dedupeStep_def Let_def postIdentityKey_nonempty update_keys
      map_of_eq_None_iff[symmetric] split: option.splits)

lemma dedupeStep_distinct:
  "distinct (map fst al) \<Longrightarrow> distinct (map fst (dedupeStep pf al p))"
  by (simp add: dedupeStep_keys)

lemma dedupeStep_map_of:
  "map_of (dedupeStep pf al p) k =
     (if k = postIdentityKey pf p then
        (case map_of al k of None \<Rightarrow> Some p
         | Some e \<Rightarrow> if shouldReplace pf e p then Some p else Some e)
      else map_of al k)"
  by (auto simp: dedupeStep_def Let_def postIdentityKey_nonempty update_conv' split: option.splits)

lemma foldl_distinct:
  "distinct (map fst (foldl (dedupeStep pf) [] ps))"
  by (induction ps rule: rev_induct) (simp_all add: dedupeStep_distinct)

lemma foldl_keyed:
  "map_of (foldl (dedupeStep pf) [] ps) k = Some q \<Longrightarrow> postIdentityKey pf q = k \<and> q \<in> set ps"
proof (induction ps arbitrary: q rule: rev_induct)
  case Nil
  then show ?case by simp
next
  case (snoc p ps)
  then show ?case
    by (auto simp: dedupeStep_map_of split: if_splits option.splits)
qed



lemma dedupePosts_keys:
  "map (postIdentityKey pf) (dedupePosts pf ps) = map fst (foldl (dedupeStep pf) [] ps)"
proof -
  have "\<forall>kv \<in> set (foldl (dedupeStep pf) [] ps). postIdentityKey pf (snd kv) = fst kv"
    using foldl_keyed[of pf ps] foldl_distinct[of pf ps]
    by (metis map_of_is_SomeI prod.collapse)
  then show ?thesis by (simp add: dedupePosts_def)
qed

lemma dedupePosts_distinct_keys:
  "distinct (map (postIdentityKey pf) (dedupePosts pf ps))"
  by (simp add: dedupePosts_keys foldl_distinct)

lemma dedupePosts_subset: "set (dedupePosts pf ps) \<subseteq> set ps"
proof
  fix q assume "q \<in> set (dedupePosts pf ps)"
  then obtain k where "(k, q) \<in> set (foldl (dedupeStep pf) [] ps)"
    by (auto simp: dedupePosts_def)
  then have "map_of (foldl (dedupeStep pf) [] ps) k = Some q"
    using foldl_distinct[of pf ps] by simp
  then show "q \<in> set ps" using foldl_keyed by blast
qed

lemma dedupePosts_key_order:
  "map (postIdentityKey pf) (dedupePosts pf ps) = rev (remdups (rev (map (postIdentityKey pf) ps)))"
  unfolding dedupePosts_keys
proof (induction ps rule: rev_induct)
  case Nil
  then show ?case by simp
next
  case (snoc p ps)
  have "set (map fst (foldl (dedupeStep pf) [] ps)) = set (map (postIdentityKey pf) ps)"
    using snoc.IH by simp
  then show ?case using snoc.IH by (simp add: dedupeStep_keys)
qed

lemma foldl_dedupe_fixed:
  "distinct (map (postIdentityKey pf) (map snd al @ qs)) \<Longrightarrow>
   (\<forall>kv \<in> set al. fst kv = postIdentityKey pf (snd kv)) \<Longrightarrow>
   foldl (dedupeStep pf) al qs = al @ map (\<lambda>q. (postIdentityKey pf q, q)) qs"
proof (induction qs arbitrary: al)
  case Nil
  then show ?case by simp
next
  case (Cons q qs)
  have notin: "postIdentityKey pf q \<notin> fst ` set al"
  proof
    assume "postIdentityKey pf q \<in> fst ` set al"
    then obtain kv where "kv \<in> set al" "fst kv = postIdentityKey pf q" by auto
    then have "postIdentityKey pf q \<in> postIdentityKey pf ` snd ` set al"
      using Cons.prems(2) by (metis image_eqI)
    then show False using Cons.prems(1) by auto
  qed
  then have none: "map_of al (postIdentityKey pf q) = None"
    by (simp add: map_of_eq_None_iff)
  have upd: "AList.update (postIdentityKey pf q) q al = al @ [(postIdentityKey pf q, q)]"
    using notin by (induction al) auto
  have step: "dedupeStep pf al q = al @ [(postIdentityKey pf q, q)]"
    by (simp add: dedupeStep_def Let_def postIdentityKey_nonempty none upd)
  have "foldl (dedupeStep pf) (al @ [(postIdentityKey pf q, q)]) qs =
        (al @ [(postIdentityKey pf q, q)]) @ map (\<lambda>q. (postIdentityKey pf q, q)) qs"
    by (rule Cons.IH) (use Cons.prems in auto)
  then show ?case by (simp add: step)
qed

lemma dedupePosts_idem: "dedupePosts pf (dedupePosts pf ps) = dedupePosts pf ps"
proof -
  have "foldl (dedupeStep pf) [] (dedupePosts pf ps) =
        [] @ map (\<lambda>q. (postIdentityKey pf q, q)) (dedupePosts pf ps)"
    by (rule foldl_dedupe_fixed) (simp_all add: dedupePosts_distinct_keys)
  then show ?thesis by (simp add: dedupePosts_def[of pf "dedupePosts pf ps"] comp_def)
qed



text \<open>
  Claim C10, as stated, fails: when a later record replaces an earlier one under the same
  key it takes the earlier record's place, so the output is not a sublist of the input.
  Here the better capture \<open>postA2\<close> comes last in the input and first in the output.
\<close>

theorem dedupePosts_not_sublist:
  "dedupePosts examplePlatform [postA1, postB, postA2] = [postA2, postB] \<and>
   \<not> subseq (dedupePosts examplePlatform [postA1, postB, postA2]) [postA1, postB, postA2]"
  by code_simp

text \<open>
  Claim C10, amended. For every input list, every record of the output of \<open>dedupePosts\<close>
  is a record of the input, the identity keys of the output are pairwise distinct and are
  the keys of the input in the order of their first occurrence, and \<open>dedupePosts\<close> is
  idempotent.
\<close>

theorem dedupePosts_distinct_idempotent:
  "set (dedupePosts pf ps) \<subseteq> set ps \<and>
   distinct (map (postIdentityKey pf) (dedupePosts pf ps)) \<and>
   map (postIdentityKey pf) (dedupePosts pf ps) = rev (remdups (rev (map (postIdentityKey pf) ps))) \<and>
   dedupePosts pf (dedupePosts pf ps) = dedupePosts pf ps"
  using dedupePosts_subset dedupePosts_distinct_keys dedupePosts_key_order dedupePosts_idem
  by blast

subsection \<open>Number tokens\<close>

text \<open>
  Claim C4, as stated, fails on its last token: after \<open>"3 "\<close> the regular expression
  looks for one of k, m, Cyrillic ka or Cyrillic em, finds the letter te of the Russian
  abbreviation, and so reads no suffix: the result is 3, not 3000.
\<close>

theorem parseNumberToken_tys_not_3000:
  "parseNumberToken tokenThreeTys = Some 3 \<and> parseNumberToken tokenThreeTys \<noteq> Some 3000"
  by code_simp

text \<open>
  Claim C4, amended. \<open>parseNumberToken\<close> maps \<open>"1,234"\<close> to 1234, \<open>"1.234,5"\<close> to 1235
  (a half rounds up), \<open>"2.5K"\<close> to 2500, and the token with the Russian abbreviation of
  thousand to 3; a Cyrillic ka after the number does multiply by 1000.
\<close>

theorem parseNumberToken_examples:
  "parseNumberToken (asc ''1,234'') = Some 1234 \<and>
   parseNumberToken (asc ''1.234,5'') = Some 1235 \<and>
   parseNumberToken (asc ''2.5K'') = Some 2500 \<and>
   parseNumberToken tokenThreeTys = Some 3 \<and>
   parseNumberToken tokenThreeKa = Some 3000"
  by code_simp

subsection \<open>Relative timestamps\<close>

lemma cleanText_tokenTwoWeeksRu: "cleanText tokenTwoWeeksRu = tokenTwoWeeksRu"
  by code_simp

lemma tokenTwoWeeksRu_nonempty: "tokenTwoWeeksRu \<noteq> []"
  by code_simp

lemma relativeOffsetMs_tokenTwoWeeksRu: "relativeOffsetMs tokenTwoWeeksRu = None"
  by code_simp

text \<open>
  The cause: \<open>\b\<close> after a Cyrillic letter holds only before an ASCII word character,
  since Cyrillic letters are not word characters; at the end of the input, or before a
  space or a full stop, it fails.
\<close>

lemma wordB_after_cyrillic:
  "1024 \<le> c \<Longrightarrow> (r = [] \<or> \<not> isWordChar (hd r)) \<Longrightarrow> ms WordB ic (Some c, r, cs) = []"
  by (cases r) (auto simp: remaining_def isWordChar_def isDigit_def)

text \<open>
  Claim C5 at the token of two weeks in Russian, which no platform parses as an absolute
  date: \<open>parsePublishedIso\<close> returns \<open>null\<close>, where the claim (and the comment in
  \<open>extractPublishedRaw\<close>, which names a Russian token as covered) expects \<open>now\<close> minus
  14 days.
\<close>

theorem parsePublishedIso_russian_weeks_null:
  assumes "dateParse pf tokenTwoWeeksRu = None"
  shows "parsePublishedIso pf now tokenTwoWeeksRu = Inr None"
  using assms
  by (simp add: parsePublishedIso_def cleanText_tokenTwoWeeksRu tokenTwoWeeksRu_nonempty
      relativeOffsetMs_tokenTwoWeeksRu)

theorem parsePublishedIso_russian_weeks_null_witness:
  "dateParse examplePlatform tokenTwoWeeksRu = None \<and>
   parsePublishedIso examplePlatform 1714651200000 tokenTwoWeeksRu = Inr None"
proof -
  have h: "dateParse examplePlatform tokenTwoWeeksRu = None" by code_simp
  show ?thesis using h parsePublishedIso_russian_weeks_null[OF h, of 1714651200000] by simp
qed

text \<open>The English tokens of the claim are computed as it says.\<close>

lemma cleanText_3h: "cleanText (asc ''3h'') = asc ''3h''"
  by code_simp

lemma relativeOffsetMs_3h: "relativeOffsetMs (asc ''3h'') = Some (3 * 3600000)"
  by code_simp

lemma parsePublishedIso_3h:
  assumes "dateParse pf (asc ''3h'') = None" and "\<bar>now - 3 * 3600000\<bar> \<le> 8640000000000000"
  shows "parsePublishedIso pf now (asc ''3h'') = Inr (Some (toISOString pf (now - 3 * 3600000)))"
proof -
  have ne: "asc ''3h'' \<noteq> []" by (simp add: asc_def)
  show ?thesis
    using assms
    by (simp add: parsePublishedIso_def cleanText_3h ne relativeOffsetMs_3h dateToISOString_def)
qed

lemma cleanText_1year: "cleanText (asc ''1 year'') = asc ''1 year''"
  by code_simp

lemma relativeOffsetMs_1year: "relativeOffsetMs (asc ''1 year'') = Some (365 * 86400000)"
  by code_simp

lemma parsePublishedIso_1year:
  assumes "dateParse pf (asc ''1 year'') = None" and "\<bar>now - 365 * 86400000\<bar> \<le> 8640000000000000"
  shows "parsePublishedIso pf now (asc ''1 year'') = Inr (Some (toISOString pf (now - 365 * 86400000)))"
proof -
  have ne: "asc ''1 year'' \<noteq> []" by (simp add: asc_def)
  show ?thesis
    using assms
    by (simp add: parsePublishedIso_def cleanText_1year ne relativeOffsetMs_1year dateToISOString_def)
qed

subsection \<open>The status line after an unauthenticated response\<close>

lemma fallback_message_401:
  "asc ''Request failed'' @ asc '' (HTTP '' @ decimal 401 @ asc '')'' = asc ''Request failed (HTTP 401)''"
  by code_simp

lemma setCommentAssistError_http_401:
  "statusText (setCommentAssistError (asc ''Request failed (HTTP 401)'')) = msgLogin"
  by code_simp

text \<open>
  When the body of the 401 response carries no message of its own, the status line is the
  login message.
\<close>

lemma statusAfterBackendError_401_no_body:
  "statusText (statusAfterBackendError 401 None) = msgLogin"
  by (simp add: statusAfterBackendError_def toBackendErrorMessage_def fallback_message_401
      setCommentAssistError_http_401)

lemma statusAfterBackendError_401_no_strings:
  assumes "\<not> nonEmptyString (detail p)" and "\<not> nonEmptyString (error p)"
    and "\<not> nonEmptyString (message p)"
  shows "statusText (statusAfterBackendError 401 (Some p)) = msgLogin"
  using assms
  by (simp add: statusAfterBackendError_def toBackendErrorMessage_def fallback_message_401
      setCommentAssistError_http_401)

text \<open>
  Claim C9 at a 401 response whose body is \<open>{"detail": "Not authenticated"}\<close>:
  \<open>toBackendErrorMessage\<close> returns the detail and drops the status, the text holds neither
  \<open>401\<close> nor \<open>unauthorized\<close>, and the status line shows the detail itself, not the login
  message.
\<close>

theorem statusAfterBackendError_401_detail_not_login:
  "toBackendErrorMessage 401 (Some notAuthenticatedBody) (asc ''Request failed'') = asc ''Not authenticated'' \<and>
   statusText (statusAfterBackendError 401 (Some notAuthenticatedBody)) = asc ''Not authenticated'' \<and>
   statusText (statusAfterBackendError 401 (Some notAuthenticatedBody)) \<noteq> msgLogin"
  by code_simp

subsection \<open>Ranking\<close>

















subsection \<open>Legacy keys of the popup\<close>

lemma startsWith_append: "startsWith (xs @ ys) xs"
  by (induction xs) auto

lemma startsWith_iff: "startsWith s pre \<longleftrightarrow> take (length pre) s = pre"
  by (induction s pre rule: startsWith.induct) auto

lemma set_setAdd: "set (setAdd ks k) = insert k (set ks)"
  by (auto simp: setAdd_def)

lemma txt_key_in_keys:
  "snippetOf p \<noteq> [] \<Longrightarrow> asc ''txt:|'' @ snippetOf p \<in> set (postIdentityKeys pf p)"
  by (simp add: postIdentityKeys_def Let_def set_setAdd)

lemma day_key_in_keys:
  "snippetOf p \<noteq> [] \<Longrightarrow> dayOf pf p \<noteq> [] \<Longrightarrow>
   asc ''txt:'' @ dayOf pf p @ asc ''|'' @ snippetOf p \<in> set (postIdentityKeys pf p)"
  by (simp add: postIdentityKeys_def Let_def set_setAdd)

lemma txt_not_stable: "\<not> isStableKey (asc ''txt:'' @ s)"
  by (simp add: isStableKey_def asc_def)

lemma txt_starts: "startsWith (asc ''txt:'' @ s) (asc ''txt:'')"
  by (rule startsWith_append)

lemma txtbar_starts: "startsWith (asc ''txt:|'' @ s) (asc ''txt:|'')"
  by (rule startsWith_append)

lemma txtbar_is_txt: "asc ''txt:|'' @ s = asc ''txt:'' @ (asc ''|'' @ s)"
  by (simp add: asc_def)

lemma day_key_not_bar:
  "d \<noteq> [] \<Longrightarrow> hd d \<noteq> 124 \<Longrightarrow> \<not> startsWith (asc ''txt:'' @ d @ r) (asc ''txt:|'')"
  by (cases d) (auto simp: asc_def)

lemma set_addKeys:
  "set (foldl (\<lambda>s key. if key \<noteq> [] then setAdd s key else s) ks keys) = set ks \<union> {k \<in> set keys. k \<noteq> []}"
  by (induction keys arbitrary: ks) (auto simp: set_setAdd)

lemma set_addLegacy:
  "set (foldl (\<lambda>s key. if key \<noteq> [] \<and> startsWith key (asc ''txt:'')
                                      then setAdd s (asc ''legacy_'' @ key) else s) ks keys)
   = set ks \<union> {asc ''legacy_'' @ k | k. k \<in> set keys \<and> k \<noteq> [] \<and> startsWith k (asc ''txt:'')}"
  by (induction keys arbitrary: ks) (auto simp: set_setAdd)

lemma set_addIdentityKeysToSet:
  "set (addIdentityKeysToSet pf ks p) =
     set ks \<union> {k \<in> set (postIdentityKeys pf p). k \<noteq> []} \<union>
     (if hasStableIdentityKey (postIdentityKeys pf p) then {}
      else {asc ''legacy_'' @ k | k. k \<in> set (postIdentityKeys pf p) \<and> k \<noteq> [] \<and> startsWith k (asc ''txt:'')})"
  by (auto simp: addIdentityKeysToSet_def Let_def set_addKeys set_addLegacy)

lemma isDuplicate_by_noDay:
  assumes "snippetOf b \<noteq> []" "length (snippetOf b) \<ge> 80"
    and "asc ''txt:|'' @ snippetOf b \<in> set ks \<or> asc ''legacy_'' @ asc ''txt:|'' @ snippetOf b \<in> set ks"
  shows "isDuplicateAgainstKeySet pf b ks"
proof -
  let ?k = "asc ''txt:|'' @ snippetOf b"
  have k: "?k \<in> set (postIdentityKeys pf b)" using assms(1) by (rule txt_key_in_keys)
  have ns: "\<not> isStableKey ?k" using txt_not_stable[of "asc ''|'' @ snippetOf b"] by (simp add: txtbar_is_txt)
  have st: "startsWith ?k (asc ''txt:'')" using txt_starts[of "asc ''|'' @ snippetOf b"] by (simp add: txtbar_is_txt)
  have sb: "startsWith ?k (asc ''txt:|'')" by (rule txtbar_starts)
  have ne: "postIdentityKeys pf b \<noteq> []" using k by auto
  show ?thesis
    unfolding isDuplicateAgainstKeySet_def Let_def list_ex_iff
    using k ns st sb ne assms(2,3) by auto
qed

lemma isDuplicate_by_day:
  assumes "snippetOf b \<noteq> []" "dayOf pf b \<noteq> []" "hd (dayOf pf b) \<noteq> 124"
    and "asc ''txt:'' @ dayOf pf b @ asc ''|'' @ snippetOf b \<in> set ks
         \<or> asc ''legacy_'' @ asc ''txt:'' @ dayOf pf b @ asc ''|'' @ snippetOf b \<in> set ks"
  shows "isDuplicateAgainstKeySet pf b ks"
proof -
  let ?k = "asc ''txt:'' @ dayOf pf b @ asc ''|'' @ snippetOf b"
  have k: "?k \<in> set (postIdentityKeys pf b)" using assms(1,2) by (rule day_key_in_keys)
  have ns: "\<not> isStableKey ?k" by (rule txt_not_stable)
  have st: "startsWith ?k (asc ''txt:'')" by (rule txt_starts)
  have sb: "\<not> startsWith ?k (asc ''txt:|'')" using assms(2,3) by (rule day_key_not_bar)
  have ne: "postIdentityKeys pf b \<noteq> []" using k by auto
  show ?thesis
    unfolding isDuplicateAgainstKeySet_def Let_def list_ex_iff
    using k ns st sb ne assms(4) by auto
qed

text \<open>
  Claim C7, as stated, fails for a short post: the check consults the text keys without a
  day only when the snippet has at least 80 code units, so a post of eleven characters
  without a date, registered without a URL (its legacy key is recorded), is not
  recognized when it comes back with a URL.
\<close>

theorem legacy_key_short_text_not_duplicate:
  "\<not> hasStableIdentityKey (postIdentityKeys examplePlatform postHello) \<and>
   hasStableIdentityKey (postIdentityKeys examplePlatform postHelloWithUrl) \<and>
   snippetOf postHelloWithUrl = snippetOf postHello \<and>
   addIdentityKeysToSet examplePlatform [] postHello =
     [asc ''txt:|hello world'', asc ''legacy_txt:|hello world''] \<and>
   \<not> isDuplicateAgainstKeySet examplePlatform postHelloWithUrl
       (addIdentityKeysToSet examplePlatform [] postHello)"
  by code_simp

text \<open>
  Claim C7, amended. When a post record \<open>a\<close> lacks a stable identity key, registering its
  keys also records every text key of it under the prefix \<open>legacy_\<close>; and a record \<open>b\<close>
  with the same non-empty snippet is recognized as a duplicate against the registered
  keys, and against the \<open>legacy_\<close> keys alone, provided the snippet has at least 80
  code units or both records carry the same day (a date string, which does not start
  with a bar).
\<close>

theorem legacy_keys_recognize_duplicate:
  assumes "\<not> hasStableIdentityKey (postIdentityKeys pf a)"
    and "snippetOf b = snippetOf a" and "snippetOf a \<noteq> []"
    and "length (snippetOf a) \<ge> 80 \<or>
         (dayOf pf b = dayOf pf a \<and> dayOf pf a \<noteq> [] \<and> hd (dayOf pf a) \<noteq> 124)"
  shows "(\<forall>k \<in> set (postIdentityKeys pf a).
            startsWith k (asc ''txt:'') \<longrightarrow> asc ''legacy_'' @ k \<in> set (addIdentityKeysToSet pf ks a)) \<and>
         isDuplicateAgainstKeySet pf b (addIdentityKeysToSet pf ks a) \<and>
         isDuplicateAgainstKeySet pf b
           (filter (\<lambda>k. startsWith k (asc ''legacy_'')) (addIdentityKeysToSet pf ks a))"
proof -
  let ?S = "addIdentityKeysToSet pf ks a"
  let ?L = "filter (\<lambda>k. startsWith k (asc ''legacy_'')) ?S"
  have rec: "\<forall>k \<in> set (postIdentityKeys pf a).
      startsWith k (asc ''txt:'') \<longrightarrow> asc ''legacy_'' @ k \<in> set ?S"
  proof (intro ballI impI)
    fix k assume k: "k \<in> set (postIdentityKeys pf a)" "startsWith k (asc ''txt:'')"
    then have "k \<noteq> []" by (auto simp: asc_def)
    then show "asc ''legacy_'' @ k \<in> set ?S"
      using k assms(1) by (auto simp: set_addIdentityKeysToSet)
  qed
  have inL: "\<And>k. k \<in> set (postIdentityKeys pf a) \<Longrightarrow> startsWith k (asc ''txt:'') \<Longrightarrow>
      asc ''legacy_'' @ k \<in> set ?L"
    using rec by (simp add: startsWith_append)
  have sb: "snippetOf b \<noteq> []" using assms(2,3) by simp
  show ?thesis
  proof (cases "length (snippetOf a) \<ge> 80")
    case True
    let ?k = "asc ''txt:|'' @ snippetOf a"
    have ka: "?k \<in> set (postIdentityKeys pf a)" using assms(3) by (rule txt_key_in_keys)
    have st: "startsWith ?k (asc ''txt:'')"
      using txt_starts[of "asc ''|'' @ snippetOf a"] by (simp add: txtbar_is_txt)
    have "asc ''legacy_'' @ ?k \<in> set ?S" using rec ka st by blast
    then have d1: "isDuplicateAgainstKeySet pf b ?S"
      using isDuplicate_by_noDay[of b ?S pf] sb True assms(2) by simp
    have "asc ''legacy_'' @ ?k \<in> set ?L" using inL ka st by blast
    then have d2: "isDuplicateAgainstKeySet pf b ?L"
      using isDuplicate_by_noDay[of b ?L pf] sb True assms(2) by simp
    show ?thesis using rec d1 d2 by blast
  next
    case False
    then have day: "dayOf pf b = dayOf pf a" "dayOf pf a \<noteq> []" "hd (dayOf pf a) \<noteq> 124"
      using assms(4) by auto
    let ?k = "asc ''txt:'' @ dayOf pf a @ asc ''|'' @ snippetOf a"
    have ka: "?k \<in> set (postIdentityKeys pf a)" using assms(3) day(2) by (rule day_key_in_keys)
    have st: "startsWith ?k (asc ''txt:'')" by (rule txt_starts)
    have "asc ''legacy_'' @ ?k \<in> set ?S" using rec ka st by blast
    then have d1: "isDuplicateAgainstKeySet pf b ?S"
      using isDuplicate_by_day[of b pf ?S] sb day assms(2) by simp
    have "asc ''legacy_'' @ ?k \<in> set ?L" using inL ka st by blast
    then have d2: "isDuplicateAgainstKeySet pf b ?L"
      using isDuplicate_by_day[of b pf ?L] sb day assms(2) by simp
    show ?thesis using rec d1 d2 by blast
  qed
qed

theorem legacy_keys_recognize_duplicate_witness:
  "\<not> hasStableIdentityKey (postIdentityKeys examplePlatform postHelloDated) \<and>
   snippetOf postHelloDatedWithUrl = snippetOf postHelloDated \<and>
   snippetOf postHelloDated \<noteq> [] \<and>
   dayOf examplePlatform postHelloDatedWithUrl = dayOf examplePlatform postHelloDated \<and>
   dayOf examplePlatform postHelloDated = asc ''2024-05-01'' \<and>
   isDuplicateAgainstKeySet examplePlatform postHelloDatedWithUrl
     (addIdentityKeysToSet examplePlatform [] postHelloDated) \<and>
   isDuplicateAgainstKeySet examplePlatform postHelloDatedWithUrl
     (filter (\<lambda>k. startsWith k (asc ''legacy_'')) (addIdentityKeysToSet examplePlatform [] postHelloDated))"
proof -
  have h1: "\<not> hasStableIdentityKey (postIdentityKeys examplePlatform postHelloDated)" by code_simp
  have h2: "snippetOf postHelloDatedWithUrl = snippetOf postHelloDated" by code_simp
  have h3: "snippetOf postHelloDated \<noteq> []" by code_simp
  have h4: "dayOf examplePlatform postHelloDatedWithUrl = dayOf examplePlatform postHelloDated" by code_simp
  have h5: "dayOf examplePlatform postHelloDated = asc ''2024-05-01''" by code_simp
  have h6: "dayOf examplePlatform postHelloDated \<noteq> [] \<and> hd (dayOf examplePlatform postHelloDated) \<noteq> 124"
    by code_simp
  show ?thesis
    using h1 h2 h3 h4 h5 h6
      legacy_keys_recognize_duplicate[of examplePlatform postHelloDated postHelloDatedWithUrl "[]"]
    by blast
qed

subsection \<open>Activity ids and identity keys\<close>

















lemma set_map_filter: "set (List.map_filter f xs) = {y. \<exists>x \<in> set xs. f x = Some y}"
  by (induction xs) (auto split: option.splits)









lemma idAt_decomposed:
  assumes "length m' = length m" and "startsWithCI m' m"
    and "list_all isDigit ident" and "8 \<le> length ident"
    and "suf = [] \<or> \<not> isDigit (hd suf)"
  shows "idAt m (m' @ ident @ suf) = Some ident"
proof -
  have sw: "startsWithCI (m' @ r) m" for r
    using assms(1,2) by (induction m' m rule: startsWithCI.induct) auto
  have tw: "takeWhile isDigit (ident @ suf) = ident"
  proof (cases suf)
    case Nil
    then show ?thesis using assms(3) by (simp add: list_all_iff)
  next
    case (Cons c suf')
    then have "\<not> isDigit c" using assms(5) by simp
    then show ?thesis using assms(3) Cons by (simp add: list_all_iff takeWhile_tail)
  qed
  show ?thesis using assms(1,4) sw tw by (simp add: idAt_def)
qed

lemma embeddedIds_append: "set (embeddedIds t) \<subseteq> set (embeddedIds (pre @ t))"
  by (induction pre) auto

text \<open>
  \<open>embeddedIds\<close> holds every id that stands in a string after a marker: a string
  \<open>pre @ m' @ ident @ suf\<close>, where \<open>m'\<close> is a marker up to letter case, \<open>ident\<close> is
  at least eight digits and no digit follows, embeds \<open>ident\<close>.
\<close>

lemma embeds_in_embeddedIds:
  assumes "m \<in> set activityMarkers" and "length m' = length m" and "startsWithCI m' m"
    and "list_all isDigit ident" and "8 \<le> length ident"
    and "suf = [] \<or> \<not> isDigit (hd suf)"
  shows "ident \<in> set (embeddedIds (pre @ m' @ ident @ suf))"
proof -
  have i: "idAt m (m' @ ident @ suf) = Some ident"
    using assms(2-6) by (rule idAt_decomposed)
  have "ident \<noteq> []" using assms(5) by auto
  then obtain c t where ct: "m' @ ident @ suf = c # t" by (cases "m' @ ident @ suf") auto
  have "ident \<in> set (embeddedIds (c # t))"
    using i assms(1) unfolding ct by (auto simp: set_map_filter)
  then show ?thesis using embeddedIds_append[of "m' @ ident @ suf" pre] ct by auto
qed



subsection \<open>The scrape orchestrator\<close>

lemma continuation_no_create: "continuation c aw sig = Wait aw' evs \<Longrightarrow> TabCreate u \<notin> set evs"
  by (induction c aw sig rule: continuation.induct) (auto split: if_splits)

lemma continuation_no_create_fin: "continuation c aw sig = Finally t oc evs \<Longrightarrow> TabCreate u \<notin> set evs"
  by (induction c aw sig rule: continuation.induct) (auto split: if_splits)

lemma continuation_wait:
  "continuation c aw sig = Wait aw' evs \<Longrightarrow>
     (\<forall>t. jobTabId aw = Some t \<longrightarrow> jobTabId aw' = Some t) \<and>
     (\<forall>t. TabOpened t \<in> set evs \<longrightarrow> jobTabId aw' = Some t \<and> \<not> c \<and> 0 < t) \<and>
     TabRemove t' \<notin> set evs"
  by (induction c aw sig rule: continuation.induct) (auto simp: validTabId_def split: if_splits option.splits)

lemma continuation_finally:
  "continuation c aw sig = Finally t oc evs \<Longrightarrow>
     (\<forall>t'. jobTabId aw = Some t' \<longrightarrow> t' = t) \<and> (\<forall>t'. TabOpened t' \<in> set evs \<longrightarrow> t' = t)"
  by (induction c aw sig rule: continuation.induct) (auto split: if_splits)

lemma continuation_complete:
  "continuation c aw sig = Complete oc \<Longrightarrow> jobTabId aw = None"
  by (induction c aw sig rule: continuation.induct) (auto split: if_splits)


lemma wellFormed_initial: "wellFormed initialStore"
  by (simp add: wellFormed_def initialStore_def)

lemma tabsAccounted_initial: "tabsAccounted initialStore"
  by (simp add: tabsAccounted_def initialStore_def)

lemma request_joins_or_cached:
  assumes "parseLinkedInProfile br url = Some prof"
    and "freshCache st (profileKey prof) now \<or> topPostsInflight st (profileKey prof) \<noteq> None"
  shows "snd (getProfileTopPosts br pl st now url) = st"
  using assms by (auto simp: getProfileTopPosts_def Let_def)

lemma request_starts:
  assumes "parseLinkedInProfile br url = Some prof"
    and "\<not> freshCache st (profileKey prof) now" and "topPostsInflight st (profileKey prof) = None"
  shows "getProfileTopPosts br pl st now url =
     (Awaits (nextRun st),
      st\<lparr>topPostsJobs := (topPostsJobs st)(profileKey prof \<mapsto> nextRun st),
         runs := (runs st)(nextRun st \<mapsto>
                   \<lparr>rprofile = prof, rcached = map_option snd (topPostsCache st (profileKey prof)),
                    rawait = AwCreate, rcancelled = False\<rparr>),
         tabLog := tabLog st @ [(profileKey prof, nextRun st, TabCreate (recentActivityUrl prof))],
         topPostsInflight := (topPostsInflight st)(profileKey prof \<mapsto> nextRun st),
         nextRun := Suc (nextRun st)\<rparr>)"
  using assms by (simp add: getProfileTopPosts_def Let_def)

lemma wellFormed_request:
  assumes "wellFormed st"
  shows "wellFormed (snd (getProfileTopPosts br pl st now url))"
proof (cases "parseLinkedInProfile br url")
  case None
  then show ?thesis using assms by (simp add: getProfileTopPosts_def)
next
  case (Some prof)
  show ?thesis
  proof (cases "freshCache st (profileKey prof) now \<or> topPostsInflight st (profileKey prof) \<noteq> None")
    case True
    then show ?thesis using assms request_joins_or_cached[OF Some True] by simp
  next
    case False
    then have nf: "\<not> freshCache st (profileKey prof) now" and ni: "topPostsInflight st (profileKey prof) = None"
      by auto
    let ?k = "profileKey prof"
    let ?n = "nextRun st"
    have w1: "\<And>r job. runs st r = Some job \<Longrightarrow>
         r < ?n \<and> topPostsInflight st (profileKey (rprofile job)) = Some r \<and>
         topPostsJobs st (profileKey (rprofile job)) = Some r"
      and w2: "\<And>k r. topPostsInflight st k = Some r \<Longrightarrow>
         (\<exists>job. runs st r = Some job \<and> profileKey (rprofile job) = k)"
      and w3: "\<And>k r. topPostsJobs st k = Some r \<Longrightarrow>
         (\<exists>job. runs st r = Some job \<and> profileKey (rprofile job) = k)"
      and w4: "\<And>k r ev. (k, r, ev) \<in> set (tabLog st) \<Longrightarrow> r < ?n"
      and w5: "\<And>r. settled st r \<noteq> None \<Longrightarrow> r < ?n \<and> runs st r = None"
      using assms unfolding wellFormed_def by blast+
    have norun: "\<And>r job. runs st r = Some job \<Longrightarrow> profileKey (rprofile job) \<noteq> ?k"
      using w1 ni by fastforce
    have nojob: "topPostsJobs st ?k = None"
      using w3 norun by (cases "topPostsJobs st ?k") fastforce+
    have fresh: "runs st ?n = None"
      using w1 by (cases "runs st ?n") fastforce+
    have f1: "\<And>k. topPostsInflight st k \<noteq> Some ?n"
      using w2 fresh by fastforce
    have f2: "\<And>k. topPostsJobs st k \<noteq> Some ?n"
      using w3 fresh by fastforce
    have f3: "settled st ?n = None"
      using w5[of ?n] by (cases "settled st ?n") auto
    show ?thesis
      unfolding request_starts[OF Some nf ni] snd_conv wellFormed_def
    proof (intro conjI allI impI)
      fix r job
      assume a: "runs (st\<lparr>topPostsJobs := (topPostsJobs st)(?k \<mapsto> ?n),
           runs := (runs st)(?n \<mapsto> \<lparr>rprofile = prof, rcached = map_option snd (topPostsCache st ?k),
                    rawait = AwCreate, rcancelled = False\<rparr>),
           tabLog := tabLog st @ [(?k, ?n, TabCreate (recentActivityUrl prof))],
           topPostsInflight := (topPostsInflight st)(?k \<mapsto> ?n),
           nextRun := Suc ?n\<rparr>) r = Some job"
      show "r < nextRun (st\<lparr>topPostsJobs := (topPostsJobs st)(?k \<mapsto> ?n),
           runs := (runs st)(?n \<mapsto> \<lparr>rprofile = prof, rcached = map_option snd (topPostsCache st ?k),
                    rawait = AwCreate, rcancelled = False\<rparr>),
           tabLog := tabLog st @ [(?k, ?n, TabCreate (recentActivityUrl prof))],
           topPostsInflight := (topPostsInflight st)(?k \<mapsto> ?n),
           nextRun := Suc ?n\<rparr>)"
        using a w1[of r job] by (auto split: if_splits simp: less_Suc_eq)
    qed (use w1 w2 w3 w4 w5 norun nojob fresh f1 f2 f3 in \<open>auto split: if_splits simp: less_Suc_eq\<close>)
  qed
qed


lemma wellFormed_log_append:
  assumes "wellFormed st" and "runs st run = Some job" and "rprofile job' = rprofile job"
  shows "wellFormed (st\<lparr>runs := (runs st)(run \<mapsto> job'), tabLog := tabLog st @ tagged key run evs\<rparr>)"
proof -
  have w1: "\<And>r job. runs st r = Some job \<Longrightarrow>
         r < nextRun st \<and> topPostsInflight st (profileKey (rprofile job)) = Some r \<and>
         topPostsJobs st (profileKey (rprofile job)) = Some r"
      and w2: "\<And>k r. topPostsInflight st k = Some r \<Longrightarrow>
         (\<exists>job. runs st r = Some job \<and> profileKey (rprofile job) = k)"
      and w3: "\<And>k r. topPostsJobs st k = Some r \<Longrightarrow>
         (\<exists>job. runs st r = Some job \<and> profileKey (rprofile job) = k)"
      and w4: "\<And>k r ev. (k, r, ev) \<in> set (tabLog st) \<Longrightarrow> r < nextRun st"
      and w5: "\<And>r. settled st r \<noteq> None \<Longrightarrow> r < nextRun st \<and> runs st r = None"
    using assms(1) unfolding wellFormed_def by blast+
  have s: "settled st run = None" using w5[of run] assms(2) by (cases "settled st run") auto
  show ?thesis
    unfolding wellFormed_def
    using w1 w2 w3 w4 w5 assms(2,3) s w1[OF assms(2)]
    by (auto simp: tagged_def split: if_splits) fastforce+
qed


lemma wellFormed_finishRun:
  assumes "wellFormed st" and "runs st run = Some job"
  shows "wellFormed (finishRun pl st run job oc now)"
proof -
  have w1: "\<And>r job. runs st r = Some job \<Longrightarrow>
         r < nextRun st \<and> topPostsInflight st (profileKey (rprofile job)) = Some r \<and>
         topPostsJobs st (profileKey (rprofile job)) = Some r"
      and w2: "\<And>k r. topPostsInflight st k = Some r \<Longrightarrow>
         (\<exists>job. runs st r = Some job \<and> profileKey (rprofile job) = k)"
      and w3: "\<And>k r. topPostsJobs st k = Some r \<Longrightarrow>
         (\<exists>job. runs st r = Some job \<and> profileKey (rprofile job) = k)"
      and w4: "\<And>k r ev. (k, r, ev) \<in> set (tabLog st) \<Longrightarrow> r < nextRun st"
      and w5: "\<And>r. settled st r \<noteq> None \<Longrightarrow> r < nextRun st \<and> runs st r = None"
    using assms(1) unfolding wellFormed_def by blast+
  let ?k = "profileKey (rprofile job)"
  have other: "profileKey (rprofile j) \<noteq> ?k" if "runs st r = Some j" "r \<noteq> run" for r j
    using w1[OF that(1)] w1[OF assms(2)] that(2) by auto
  have i1: "r \<noteq> run" if "topPostsInflight st k = Some r" "k \<noteq> ?k" for k r
    using w2[OF that(1)] assms(2) that(2) by auto
  have i2: "r \<noteq> run" if "topPostsJobs st k = Some r" "k \<noteq> ?k" for k r
    using w3[OF that(1)] assms(2) that(2) by auto
  show ?thesis
    unfolding wellFormed_def finishRun_def Let_def
    using w1 w2 w3 w4 w5 other i1 i2 w1[OF assms(2)]
    by (auto split: if_splits) 
qed

lemma wellFormed_resume:
  assumes "wellFormed st"
  shows "wellFormed (resume pl st run sig now)"
proof (cases "runs st run")
  case None
  then show ?thesis using assms by (simp add: resume_def)
next
  case (Some job)
  show ?thesis
  proof (cases "continuation (rcancelled job) (rawait job) sig")
    case (Wait aw evs)
    then show ?thesis
      using wellFormed_log_append[OF assms Some, of "job\<lparr>rawait := aw\<rparr>"] Some
      by (simp add: resume_def)
  next
    case (Finally t oc evs)
    then show ?thesis
      using wellFormed_log_append[OF assms Some, of "job\<lparr>rawait := AwClose t oc\<rparr>"] Some
      by (simp add: resume_def)
  next
    case (Complete oc)
    then show ?thesis using wellFormed_finishRun[OF assms Some] Some by (simp add: resume_def)
  next
    case Ignore
    then show ?thesis using assms Some by (simp add: resume_def)
  qed
qed

lemma wellFormed_cancel:
  assumes "wellFormed st"
  shows "wellFormed (cancelProfileTopPosts br st url)"
proof (cases "parseLinkedInProfile br (cleanText_bg url)")
  case None
  then show ?thesis using assms by (simp add: cancelProfileTopPosts_def)
next
  case (Some prof)
  show ?thesis
  proof (cases "topPostsJobs st (profileKey prof)")
    case None
    then show ?thesis using assms Some by (simp add: cancelProfileTopPosts_def)
  next
    case (Some run)
    note j = Some
    show ?thesis
    proof (cases "runs st run")
      case None
      then show ?thesis using assms j \<open>parseLinkedInProfile br (cleanText_bg url) = Some prof\<close>
        by (simp add: cancelProfileTopPosts_def)
    next
      case (Some job)
      have "wellFormed (st\<lparr>runs := (runs st)(run \<mapsto> job\<lparr>rcancelled := True\<rparr>),
          tabLog := tabLog st @ tagged (profileKey prof) run
            (if validTabId (jobTabId (rawait job)) then [TabRemove (the (jobTabId (rawait job)))] else [])\<rparr>)"
        by (rule wellFormed_log_append[OF assms Some]) simp
      then show ?thesis
        using Some j \<open>parseLinkedInProfile br (cleanText_bg url) = Some prof\<close>
        by (cases "validTabId (jobTabId (rawait job))") (simp_all add: cancelProfileTopPosts_def tagged_def)
    qed
  qed
qed

lemma wellFormed_step: "wellFormed st \<Longrightarrow> wellFormed (step br pl st ev)"
  by (cases ev) (simp_all add: wellFormed_request wellFormed_resume wellFormed_cancel)

lemma wellFormed_exec: "wellFormed st \<Longrightarrow> wellFormed (exec br pl st evs)"
  unfolding exec_def by (induction evs arbitrary: st) (simp_all add: wellFormed_step)


lemma tabsAccounted_request:
  assumes "wellFormed st" and "tabsAccounted st"
  shows "tabsAccounted (snd (getProfileTopPosts br pl st now url))"
proof (cases "parseLinkedInProfile br url")
  case None
  then show ?thesis using assms by (simp add: getProfileTopPosts_def)
next
  case (Some prof)
  show ?thesis
  proof (cases "freshCache st (profileKey prof) now \<or> topPostsInflight st (profileKey prof) \<noteq> None")
    case True
    then show ?thesis using assms request_joins_or_cached[OF Some True] by simp
  next
    case False
    then have nf: "\<not> freshCache st (profileKey prof) now" and ni: "topPostsInflight st (profileKey prof) = None"
      by auto
    have w4: "\<And>k r ev. (k, r, ev) \<in> set (tabLog st) \<Longrightarrow> r < nextRun st"
      using assms(1) unfolding wellFormed_def by blast
    show ?thesis
      unfolding request_starts[OF Some nf ni] snd_conv tabsAccounted_def
    proof (intro allI impI)
      fix k r t
      assume "(k, r, TabOpened t) \<in> set (tabLog (st\<lparr>topPostsJobs := (topPostsJobs st)(profileKey prof \<mapsto> nextRun st),
         runs := (runs st)(nextRun st \<mapsto>
                   \<lparr>rprofile = prof, rcached = map_option snd (topPostsCache st (profileKey prof)),
                    rawait = AwCreate, rcancelled = False\<rparr>),
         tabLog := tabLog st @ [(profileKey prof, nextRun st, TabCreate (recentActivityUrl prof))],
         topPostsInflight := (topPostsInflight st)(profileKey prof \<mapsto> nextRun st),
         nextRun := Suc (nextRun st)\<rparr>))"
      then have old: "(k, r, TabOpened t) \<in> set (tabLog st)" by auto
      then have "r \<noteq> nextRun st" using w4 by fastforce
      then show "(k, r, TabRemove t) \<in> set (tabLog (st\<lparr>topPostsJobs := (topPostsJobs st)(profileKey prof \<mapsto> nextRun st),
         runs := (runs st)(nextRun st \<mapsto>
                   \<lparr>rprofile = prof, rcached = map_option snd (topPostsCache st (profileKey prof)),
                    rawait = AwCreate, rcancelled = False\<rparr>),
         tabLog := tabLog st @ [(profileKey prof, nextRun st, TabCreate (recentActivityUrl prof))],
         topPostsInflight := (topPostsInflight st)(profileKey prof \<mapsto> nextRun st),
         nextRun := Suc (nextRun st)\<rparr>)) \<or>
        (\<exists>job. runs (st\<lparr>topPostsJobs := (topPostsJobs st)(profileKey prof \<mapsto> nextRun st),
         runs := (runs st)(nextRun st \<mapsto>
                   \<lparr>rprofile = prof, rcached = map_option snd (topPostsCache st (profileKey prof)),
                    rawait = AwCreate, rcancelled = False\<rparr>),
         tabLog := tabLog st @ [(profileKey prof, nextRun st, TabCreate (recentActivityUrl prof))],
         topPostsInflight := (topPostsInflight st)(profileKey prof \<mapsto> nextRun st),
         nextRun := Suc (nextRun st)\<rparr>) r = Some job \<and> jobTabId (rawait job) = Some t \<and> 0 < t \<and>
               \<not> rcancelled job \<and> profileKey (rprofile job) = k)"
        using assms(2) old unfolding tabsAccounted_def by auto
    qed
  qed
qed

lemma tabsAccounted_resume:
  assumes "wellFormed st" and "tabsAccounted st"
  shows "tabsAccounted (resume pl st run sig now)"
proof (cases "runs st run")
  case None
  then show ?thesis using assms by (simp add: resume_def)
next
  case (Some job)
  have acc: "\<And>k r t. (k, r, TabOpened t) \<in> set (tabLog st) \<Longrightarrow>
        (k, r, TabRemove t) \<in> set (tabLog st) \<or>
        (\<exists>job. runs st r = Some job \<and> jobTabId (rawait job) = Some t \<and> 0 < t \<and>
               \<not> rcancelled job \<and> profileKey (rprofile job) = k)"
    using assms(2) unfolding tabsAccounted_def by blast
  show ?thesis
  proof (cases "continuation (rcancelled job) (rawait job) sig")
    case (Wait aw evs)
    note cw = continuation_wait[OF Wait]
    show ?thesis
      unfolding tabsAccounted_def
    proof (intro allI impI)
      fix k r t
      assume a: "(k, r, TabOpened t) \<in> set (tabLog (resume pl st run sig now))"
      have st': "resume pl st run sig now =
          st\<lparr>runs := (runs st)(run \<mapsto> job\<lparr>rawait := aw\<rparr>),
             tabLog := tabLog st @ tagged (profileKey (rprofile job)) run evs\<rparr>"
        using Some Wait by (simp add: resume_def)
      from a consider (old) "(k, r, TabOpened t) \<in> set (tabLog st)"
        | (new) "k = profileKey (rprofile job)" "r = run" "TabOpened t \<in> set evs"
        unfolding st' by (auto simp: tagged_def)
      then show "(k, r, TabRemove t) \<in> set (tabLog (resume pl st run sig now)) \<or>
        (\<exists>job. runs (resume pl st run sig now) r = Some job \<and> jobTabId (rawait job) = Some t \<and> 0 < t \<and>
               \<not> rcancelled job \<and> profileKey (rprofile job) = k)"
      proof cases
        case old
        from acc[OF old] show ?thesis
          unfolding st' using Some cw by (cases "r = run") auto
      next
        case new
        then show ?thesis unfolding st' using cw by auto
      qed
    qed
  next
    case (Finally t' oc evs)
    note cf = continuation_finally[OF Finally]
    show ?thesis
      unfolding tabsAccounted_def
    proof (intro allI impI)
      fix k r t
      assume a: "(k, r, TabOpened t) \<in> set (tabLog (resume pl st run sig now))"
      have st': "resume pl st run sig now =
          st\<lparr>runs := (runs st)(run \<mapsto> job\<lparr>rawait := AwClose t' oc\<rparr>),
             tabLog := tabLog st @ tagged (profileKey (rprofile job)) run (evs @ [TabRemove t'])\<rparr>"
        using Some Finally by (simp add: resume_def)
      from a consider (old) "(k, r, TabOpened t) \<in> set (tabLog st)"
        | (new) "k = profileKey (rprofile job)" "r = run" "TabOpened t \<in> set evs"
        unfolding st' by (auto simp: tagged_def)
      then show "(k, r, TabRemove t) \<in> set (tabLog (resume pl st run sig now)) \<or>
        (\<exists>job. runs (resume pl st run sig now) r = Some job \<and> jobTabId (rawait job) = Some t \<and> 0 < t \<and>
               \<not> rcancelled job \<and> profileKey (rprofile job) = k)"
      proof cases
        case old
        from acc[OF old] show ?thesis
          unfolding st' using Some cf by (cases "r = run") (auto simp: tagged_def)
      next
        case new
        then show ?thesis unfolding st' using cf by (auto simp: tagged_def)
      qed
    qed
  next
    case (Complete oc)
    note cc = continuation_complete[OF Complete]
    have st': "resume pl st run sig now = finishRun pl st run job oc now"
      using Some Complete by (simp add: resume_def)
    show ?thesis
      unfolding tabsAccounted_def st'
    proof (intro allI impI)
      fix k r t
      assume a: "(k, r, TabOpened t) \<in> set (tabLog (finishRun pl st run job oc now))"
      then have old: "(k, r, TabOpened t) \<in> set (tabLog st)" by (simp add: finishRun_def Let_def)
      from acc[OF old] show "(k, r, TabRemove t) \<in> set (tabLog (finishRun pl st run job oc now)) \<or>
        (\<exists>job'. runs (finishRun pl st run job oc now) r = Some job' \<and> jobTabId (rawait job') = Some t \<and> 0 < t \<and>
               \<not> rcancelled job' \<and> profileKey (rprofile job') = k)"
        using Some cc by (cases "r = run") (auto simp: finishRun_def Let_def)
    qed
  next
    case Ignore
    then show ?thesis using assms Some by (simp add: resume_def)
  qed
qed


lemma cancel_effect:
  assumes "parseLinkedInProfile br (cleanText_bg url) = Some prof"
    and "topPostsJobs st (profileKey prof) = Some run" and "runs st run = Some job"
  shows "cancelProfileTopPosts br st url =
     st\<lparr>runs := (runs st)(run \<mapsto> job\<lparr>rcancelled := True\<rparr>),
        tabLog := tabLog st @
          (if validTabId (jobTabId (rawait job))
           then [(profileKey prof, run, TabRemove (the (jobTabId (rawait job))))] else [])\<rparr>"
  using assms by (simp add: cancelProfileTopPosts_def)

lemma cancel_noop:
  assumes "parseLinkedInProfile br (cleanText_bg url) = None \<or>
     (\<exists>prof. parseLinkedInProfile br (cleanText_bg url) = Some prof \<and>
        (topPostsJobs st (profileKey prof) = None \<or>
         (\<exists>run. topPostsJobs st (profileKey prof) = Some run \<and> runs st run = None)))"
  shows "cancelProfileTopPosts br st url = st"
  using assms by (auto simp: cancelProfileTopPosts_def)

lemma tabsAccounted_cancel:
  assumes "wellFormed st" and "tabsAccounted st"
  shows "tabsAccounted (cancelProfileTopPosts br st url)"
proof (cases "\<exists>prof run job. parseLinkedInProfile br (cleanText_bg url) = Some prof \<and>
    topPostsJobs st (profileKey prof) = Some run \<and> runs st run = Some job")
  case False
  then have "cancelProfileTopPosts br st url = st"
    by (intro cancel_noop) (metis option.exhaust)
  then show ?thesis using assms(2) by simp
next
  case True
  then obtain prof run job where p: "parseLinkedInProfile br (cleanText_bg url) = Some prof"
    and j: "topPostsJobs st (profileKey prof) = Some run" and r: "runs st run = Some job"
    by blast
  have key: "profileKey (rprofile job) = profileKey prof"
    using assms(1) j r unfolding wellFormed_def by (metis option.inject)
  have acc: "\<And>k r t. (k, r, TabOpened t) \<in> set (tabLog st) \<Longrightarrow>
        (k, r, TabRemove t) \<in> set (tabLog st) \<or>
        (\<exists>job. runs st r = Some job \<and> jobTabId (rawait job) = Some t \<and> 0 < t \<and>
               \<not> rcancelled job \<and> profileKey (rprofile job) = k)"
    using assms(2) unfolding tabsAccounted_def by blast
  show ?thesis
    unfolding tabsAccounted_def cancel_effect[OF p j r]
  proof (intro allI impI)
    fix k r' t
    assume a: "(k, r', TabOpened t) \<in> set (tabLog (st\<lparr>runs := (runs st)(run \<mapsto> job\<lparr>rcancelled := True\<rparr>),
        tabLog := tabLog st @
          (if validTabId (jobTabId (rawait job))
           then [(profileKey prof, run, TabRemove (the (jobTabId (rawait job))))] else [])\<rparr>))"
    then have old: "(k, r', TabOpened t) \<in> set (tabLog st)" by (auto split: if_splits)
    from acc[OF old] show "(k, r', TabRemove t) \<in> set (tabLog (st\<lparr>runs := (runs st)(run \<mapsto> job\<lparr>rcancelled := True\<rparr>),
        tabLog := tabLog st @
          (if validTabId (jobTabId (rawait job))
           then [(profileKey prof, run, TabRemove (the (jobTabId (rawait job))))] else [])\<rparr>)) \<or>
        (\<exists>job'. runs (st\<lparr>runs := (runs st)(run \<mapsto> job\<lparr>rcancelled := True\<rparr>),
        tabLog := tabLog st @
          (if validTabId (jobTabId (rawait job))
           then [(profileKey prof, run, TabRemove (the (jobTabId (rawait job))))] else [])\<rparr>) r' = Some job' \<and>
           jobTabId (rawait job') = Some t \<and> 0 < t \<and>
               \<not> rcancelled job' \<and> profileKey (rprofile job') = k)"
      using r key by (cases "r' = run") (auto simp: validTabId_def)
  qed
qed

lemma invariants_step:
  "wellFormed st \<and> tabsAccounted st \<Longrightarrow> wellFormed (step br pl st ev) \<and> tabsAccounted (step br pl st ev)"
  by (cases ev)
     (simp_all add: wellFormed_request wellFormed_resume wellFormed_cancel
        tabsAccounted_request tabsAccounted_resume tabsAccounted_cancel)

lemma invariants_exec:
  "wellFormed st \<and> tabsAccounted st \<Longrightarrow>
   wellFormed (exec br pl st evs) \<and> tabsAccounted (exec br pl st evs)"
  unfolding exec_def
proof (induction evs arbitrary: st)
  case Nil
  then show ?case by simp
next
  case (Cons ev evs)
  then show ?case using invariants_step[of st br pl ev] by simp
qed


lemma creates_append: "creates k (xs @ ys) = creates k xs + creates k ys"
  by (simp add: creates_def)

lemma isCreate_iff: "isCreate ev \<longleftrightarrow> (\<exists>u. ev = TabCreate u)"
  by (cases ev) auto

lemma creates_tagged_none:
  "(\<And>u. TabCreate u \<notin> set evs) \<Longrightarrow> creates k (tagged k' r evs) = 0"
  by (auto simp: creates_def tagged_def isCreate_iff filter_empty_conv)

lemma inFlightOrDone_request:
  assumes "wellFormed s" and "inFlightOrDone r k c s"
  shows "inFlightOrDone r k c (snd (getProfileTopPosts br pl s now url))"
proof (cases "parseLinkedInProfile br url")
  case None
  then show ?thesis using assms by (simp add: getProfileTopPosts_def)
next
  case (Some prof)
  show ?thesis
  proof (cases "freshCache s (profileKey prof) now \<or> topPostsInflight s (profileKey prof) \<noteq> None")
    case True
    then show ?thesis using assms request_joins_or_cached[OF Some True] by simp
  next
    case False
    then have nf: "\<not> freshCache s (profileKey prof) now" and ni: "topPostsInflight s (profileKey prof) = None"
      by auto
    show ?thesis
      using assms(2) ni
      unfolding request_starts[OF Some nf ni] snd_conv inFlightOrDone_def
      by (auto simp: creates_append creates_def)
  qed
qed

lemma inFlightOrDone_cancel:
  assumes "wellFormed s" and "inFlightOrDone r k c s"
  shows "inFlightOrDone r k c (cancelProfileTopPosts br s url)"
proof (cases "\<exists>prof run job. parseLinkedInProfile br (cleanText_bg url) = Some prof \<and>
    topPostsJobs s (profileKey prof) = Some run \<and> runs s run = Some job")
  case False
  then have "cancelProfileTopPosts br s url = s"
    by (intro cancel_noop) (metis option.exhaust)
  then show ?thesis using assms(2) by simp
next
  case True
  then obtain prof run job where p: "parseLinkedInProfile br (cleanText_bg url) = Some prof"
    and j: "topPostsJobs s (profileKey prof) = Some run" and rr: "runs s run = Some job"
    by blast
  show ?thesis
    using assms(2) rr
    unfolding cancel_effect[OF p j rr] inFlightOrDone_def
    by (auto simp: creates_append creates_def)
qed

lemma inFlightOrDone_resume:
  assumes "wellFormed s" and "inFlightOrDone r k c s"
  shows "inFlightOrDone r k c (resume pl s run sig now)"
proof (cases "runs s run")
  case None
  then show ?thesis using assms by (simp add: resume_def)
next
  case (Some job)
  have w1: "run < nextRun s \<and> topPostsInflight s (profileKey (rprofile job)) = Some run"
    using assms(1) Some unfolding wellFormed_def by blast
  show ?thesis
  proof (cases "continuation (rcancelled job) (rawait job) sig")
    case (Wait aw evs)
    have "creates k (tagged (profileKey (rprofile job)) run evs) = 0"
      by (rule creates_tagged_none) (use continuation_no_create[OF Wait] in blast)
    then show ?thesis
      using assms(2) Some Wait unfolding inFlightOrDone_def
      by (auto simp: resume_def creates_append)
  next
    case (Finally t oc evs)
    have "creates k (tagged (profileKey (rprofile job)) run (evs @ [TabRemove t])) = 0"
      by (rule creates_tagged_none) (use continuation_no_create_fin[OF Finally] in auto)
    then show ?thesis
      using assms(2) Some Finally unfolding inFlightOrDone_def
      by (auto simp: resume_def creates_append)
  next
    case (Complete oc)
    show ?thesis
      using assms(2) Some Complete w1 unfolding inFlightOrDone_def
      by (auto simp: resume_def finishRun_def Let_def)
  next
    case Ignore
    then show ?thesis using assms Some by (simp add: resume_def)
  qed
qed

lemma inFlightOrDone_exec:
  "wellFormed s \<Longrightarrow> inFlightOrDone r k c s \<Longrightarrow> inFlightOrDone r k c (exec br pl s evs)"
  unfolding exec_def
proof (induction evs arbitrary: s)
  case Nil
  then show ?case by simp
next
  case (Cons ev evs)
  have "wellFormed (step br pl s ev)" using Cons.prems(1) by (rule wellFormed_step)
  moreover have "inFlightOrDone r k c (step br pl s ev)"
    using Cons.prems
    by (cases ev) (simp_all add: inFlightOrDone_request inFlightOrDone_cancel inFlightOrDone_resume)
  ultimately show ?case using Cons.IH by simp
qed

lemma creates_resume: "creates k (tabLog (resume pl s run sig now)) = creates k (tabLog s)"
proof (cases "runs s run")
  case None
  then show ?thesis by (simp add: resume_def)
next
  case (Some job)
  show ?thesis
  proof (cases "continuation (rcancelled job) (rawait job) sig")
    case (Wait aw evs)
    have "creates k (tagged (profileKey (rprofile job)) run evs) = 0"
      by (rule creates_tagged_none) (use continuation_no_create[OF Wait] in blast)
    then show ?thesis using Some Wait by (simp add: resume_def creates_append)
  next
    case (Finally t oc evs)
    have "creates k (tagged (profileKey (rprofile job)) run (evs @ [TabRemove t])) = 0"
      by (rule creates_tagged_none) (use continuation_no_create_fin[OF Finally] in auto)
    then show ?thesis using Some Finally by (simp add: resume_def creates_append)
  next
    case (Complete oc)
    then show ?thesis using Some by (simp add: resume_def finishRun_def Let_def)
  next
    case Ignore
    then show ?thesis using Some by (simp add: resume_def)
  qed
qed

lemma request_joins:
  assumes "parseLinkedInProfile br url = Some prof"
    and "\<not> freshCache st (profileKey prof) now" and "topPostsInflight st (profileKey prof) = Some r"
  shows "getProfileTopPosts br pl st now url = (Awaits r, st)"
  using assms by (simp add: getProfileTopPosts_def Let_def)

text \<open>
  Claim C2. In a state the event loop can reach, let a request for a profile find no
  fresh cache entry and no job in flight: it starts a run, which opens one tab. If, after
  any further turns of the event loop, that run is still in flight when a second request
  for the same profile key arrives (under the same or another URL, and with no fresh cache
  entry), the second caller is handed the promise of that run, so it receives the result
  of that run, and the state is unchanged: no second tab is opened. The log then holds
  exactly one more tab creation for the key than before the first request, and no later
  step of the run adds one.
\<close>

theorem single_flight_one_tab:
  assumes "parseLinkedInProfile br url1 = Some p1" and "parseLinkedInProfile br url2 = Some p2"
    and "profileKey p2 = profileKey p1"
    and "st = exec br pl initialStore evs0"
    and "topPostsInflight st (profileKey p1) = None" and "\<not> freshCache st (profileKey p1) now1"
    and "st2 = exec br pl (snd (getProfileTopPosts br pl st now1 url1)) evs"
    and "topPostsInflight st2 (profileKey p1) = Some (nextRun st)"
    and "\<not> freshCache st2 (profileKey p1) now2"
  shows "fst (getProfileTopPosts br pl st now1 url1) = Awaits (nextRun st) \<and>
         getProfileTopPosts br pl st2 now2 url2 = (Awaits (nextRun st), st2) \<and>
         creates (profileKey p1) (tabLog st2) = creates (profileKey p1) (tabLog st) + 1 \<and>
         (\<forall>sig now3. creates (profileKey p1) (tabLog (resume pl st2 (nextRun st) sig now3)) =
            creates (profileKey p1) (tabLog st) + 1)"
proof -
  let ?k = "profileKey p1"
  let ?n = "nextRun st"
  let ?st1 = "snd (getProfileTopPosts br pl st now1 url1)"
  have wf: "wellFormed st"
    unfolding assms(4) using invariants_exec[of initialStore br pl evs0]
    by (simp add: wellFormed_initial tabsAccounted_initial)
  have wf1: "wellFormed ?st1" using wf by (rule wellFormed_request)
  have start: "getProfileTopPosts br pl st now1 url1 =
     (Awaits ?n,
      st\<lparr>topPostsJobs := (topPostsJobs st)(?k \<mapsto> ?n),
         runs := (runs st)(?n \<mapsto>
                   \<lparr>rprofile = p1, rcached = map_option snd (topPostsCache st ?k),
                    rawait = AwCreate, rcancelled = False\<rparr>),
         tabLog := tabLog st @ [(?k, ?n, TabCreate (recentActivityUrl p1))],
         topPostsInflight := (topPostsInflight st)(?k \<mapsto> ?n),
         nextRun := Suc ?n\<rparr>)"
    using assms(1,6,5) by (rule request_starts)
  have first: "fst (getProfileTopPosts br pl st now1 url1) = Awaits ?n"
    by (simp add: start)
  have "inFlightOrDone ?n ?k (creates ?k (tabLog st) + 1) ?st1"
    unfolding start snd_conv inFlightOrDone_def by (simp add: creates_append creates_def)
  then have "inFlightOrDone ?n ?k (creates ?k (tabLog st) + 1) st2"
    unfolding assms(7) using wf1 by (intro inFlightOrDone_exec)
  moreover have wf2: "wellFormed st2"
    unfolding assms(7) using wf1 by (rule wellFormed_exec)
  then have "runs st2 ?n \<noteq> None"
    using assms(8) unfolding wellFormed_def by fastforce
  ultimately have count: "creates ?k (tabLog st2) = creates ?k (tabLog st) + 1"
    unfolding inFlightOrDone_def by auto
  have second: "getProfileTopPosts br pl st2 now2 url2 = (Awaits ?n, st2)"
    using assms(2) assms(9) assms(8) unfolding assms(3)[symmetric] by (rule request_joins)
  show ?thesis using first second count by (simp add: creates_resume)
qed

lemma parse_janeUrl: "parseLinkedInProfile exampleBrowser janeUrl = Some janeProfile"
  by code_simp

lemma parse_janeUrlWithQuery: "parseLinkedInProfile exampleBrowser janeUrlWithQuery = Some janeProfile"
  by code_simp

theorem single_flight_one_tab_witness:
  "parseLinkedInProfile exampleBrowser janeUrl = Some janeProfile \<and>
   parseLinkedInProfile exampleBrowser janeUrlWithQuery = Some janeProfile \<and>
   janeUrl \<noteq> janeUrlWithQuery \<and>
   getProfileTopPosts exampleBrowser examplePayloads
     (exec exampleBrowser examplePayloads
        (snd (getProfileTopPosts exampleBrowser examplePayloads initialStore 1000 janeUrl))
        [Resume 0 (SigCreated (Some 7)) 1100])
     1150 janeUrlWithQuery =
   (Awaits 0,
    exec exampleBrowser examplePayloads
        (snd (getProfileTopPosts exampleBrowser examplePayloads initialStore 1000 janeUrl))
        [Resume 0 (SigCreated (Some 7)) 1100]) \<and>
   creates (profileKey janeProfile)
     (tabLog (exec exampleBrowser examplePayloads
        (snd (getProfileTopPosts exampleBrowser examplePayloads initialStore 1000 janeUrl))
        [Resume 0 (SigCreated (Some 7)) 1100])) = 1"
proof -
  let ?st = "initialStore :: jstr store"
  let ?st2 = "exec exampleBrowser examplePayloads
        (snd (getProfileTopPosts exampleBrowser examplePayloads ?st 1000 janeUrl))
        [Resume 0 (SigCreated (Some 7)) 1100]"
  have h0: "?st = exec exampleBrowser examplePayloads initialStore []" by (simp add: exec_def)
  have h1: "topPostsInflight ?st (profileKey janeProfile) = None" by (simp add: initialStore_def)
  have h2: "\<not> freshCache ?st (profileKey janeProfile) 1000" by (simp add: freshCache_def initialStore_def)
  have h3: "topPostsInflight ?st2 (profileKey janeProfile) = Some (nextRun ?st)" by code_simp
  have h4: "\<not> freshCache ?st2 (profileKey janeProfile) 1150" by code_simp
  have h5: "janeUrl \<noteq> janeUrlWithQuery" by code_simp
  have h6: "nextRun ?st = 0" "creates (profileKey janeProfile) (tabLog ?st) = 0"
    by (simp_all add: initialStore_def creates_def)
  show ?thesis
    using single_flight_one_tab[OF parse_janeUrl parse_janeUrlWithQuery refl h0 h1 h2 refl h3 h4]
      parse_janeUrl parse_janeUrlWithQuery h5 h6
    by simp
qed



end
